theory Spec2Isabelle
  imports Complex_Main "HOL-Library.Multiset"
begin

section \<open>Numbers as NumPy computes with them\<close>

text \<open>
  The estimator of \<^verbatim>\<open>factory_env_insertion.py\<close> (class \<^verbatim>\<open>ExtrinsicContact\<close>)
  computes with NumPy floating-point arrays. For the poses, which are double precision,
  rounding is not modelled: a finite number is a real. What is modelled is the one special
  value that code can produce, the NaN that NumPy returns (with a warning, not an exception)
  for \<^verbatim>\<open>0/0\<close> and for \<^verbatim>\<open>arccos\<close> outside \<open>[-1, 1]\<close>. Every operation propagates it, and
  every comparison with it is false. The divisors of the pose code are norms of the dividend
  itself, so over the reals a zero divisor always meets a zero dividend; the quotient by zero
  is therefore NaN there. The contact scores are single precision and are modelled with
  their rounding, in the next section.
\<close>

datatype npfloat = Fin real | NaN

fun nadd :: "npfloat \<Rightarrow> npfloat \<Rightarrow> npfloat" where
  "nadd (Fin a) (Fin b) = Fin (a + b)"
| "nadd _ _ = NaN"

fun nsub :: "npfloat \<Rightarrow> npfloat \<Rightarrow> npfloat" where
  "nsub (Fin a) (Fin b) = Fin (a - b)"
| "nsub _ _ = NaN"

fun nmul :: "npfloat \<Rightarrow> npfloat \<Rightarrow> npfloat" where
  "nmul (Fin a) (Fin b) = Fin (a * b)"
| "nmul _ _ = NaN"

fun ndiv :: "npfloat \<Rightarrow> npfloat \<Rightarrow> npfloat" where
  "ndiv (Fin a) (Fin b) = (if b = 0 then NaN else Fin (a / b))"
| "ndiv _ _ = NaN"

fun nsqrt :: "npfloat \<Rightarrow> npfloat" where
  "nsqrt (Fin a) = (if a < 0 then NaN else Fin (sqrt a))"
| "nsqrt NaN = NaN"

fun ngt :: "npfloat \<Rightarrow> npfloat \<Rightarrow> bool" where
  "ngt (Fin a) (Fin b) = (a > b)"
| "ngt _ _ = False"

fun nmaximum :: "npfloat \<Rightarrow> npfloat \<Rightarrow> npfloat" where
  "nmaximum (Fin a) (Fin b) = Fin (max a b)"
| "nmaximum _ _ = NaN"

fun nminimum :: "npfloat \<Rightarrow> npfloat \<Rightarrow> npfloat" where
  "nminimum (Fin a) (Fin b) = Fin (min a b)"
| "nminimum _ _ = NaN"

text \<open>\<^verbatim>\<open>np.clip(a, lo, hi)\<close> is \<^verbatim>\<open>minimum(maximum(a, lo), hi)\<close>, also when \<open>lo > hi\<close>.\<close>

definition np_clip :: "npfloat \<Rightarrow> npfloat \<Rightarrow> npfloat \<Rightarrow> npfloat" where
  "np_clip a lo hi = nminimum (nmaximum a lo) hi"

fun nsum :: "npfloat list \<Rightarrow> npfloat" where
  "nsum [] = Fin 0"
| "nsum (x # xs) = nadd x (nsum xs)"

datatype error = ValueError | AttributeError | IndexError | RuntimeError

section \<open>Single precision\<close>

text \<open>
  Open3D returns the distances as a float32 array, and NumPy keeps the array in that
  precision: a Python scalar that meets it (\<^verbatim>\<open>threshold\<close>, \<^verbatim>\<open>0.1\<close>) is cast to float32
  and every quotient and difference is rounded to the nearest float32, ties to even.
  \<open>round32\<close> is that rounding, with the subnormal numbers below \<open>2\<^sup>-\<^sup>1\<^sup>2\<^sup>6\<close> and the
  overflow to an infinity from \<open>2\<^sup>1\<^sup>2\<^sup>8\<close> on. The sign of a zero is not kept. A threshold
  beyond the float32 range is cast to an infinity, as NumPy 2 does.
\<close>

datatype float32 = F32 real | PInf | NInf | NaN32

definition pow2 :: "int \<Rightarrow> real" where
  "pow2 e = 2 powr of_int e"

definition round_half_even :: "real \<Rightarrow> int" where
  "round_half_even x =
     (let f = \<lfloor>x\<rfloor> in
      if x - of_int f < 1 / 2 then f
      else if x - of_int f > 1 / 2 then f + 1
      else if even f then f else f + 1)"

definition exponent32 :: "real \<Rightarrow> int" where
  "exponent32 x = max \<lfloor>log 2 \<bar>x\<bar>\<rfloor> (- 126)"

definition ulp32 :: "real \<Rightarrow> real" where
  "ulp32 x = pow2 (exponent32 x - 23)"

definition round32 :: "real \<Rightarrow> float32" where
  "round32 x =
     (if x = 0 then F32 0
      else (let r = of_int (round_half_even (x / ulp32 x)) * ulp32 x in
            if pow2 128 \<le> r then PInf
            else if r \<le> - pow2 128 then NInf
            else F32 r))"

fun to32 :: "npfloat \<Rightarrow> float32" where
  "to32 (Fin a) = F32 a"
| "to32 NaN = NaN32"

text \<open>
  Back to the array of the dropout. A score is never an infinity (lemma
  \<open>score32_not_infinite\<close>), so the last equation is not reached.
\<close>

fun of32 :: "float32 \<Rightarrow> npfloat" where
  "of32 (F32 a) = Fin a"
| "of32 _ = NaN"

fun lt32 :: "float32 \<Rightarrow> float32 \<Rightarrow> bool" where
  "lt32 (F32 a) (F32 b) = (a < b)"
| "lt32 NInf (F32 b) = True"
| "lt32 NInf PInf = True"
| "lt32 (F32 a) PInf = True"
| "lt32 _ _ = False"

definition maximum32 :: "float32 \<Rightarrow> float32 \<Rightarrow> float32" where
  "maximum32 a b = (if a = NaN32 \<or> b = NaN32 then NaN32 else if lt32 a b then b else a)"

definition minimum32 :: "float32 \<Rightarrow> float32 \<Rightarrow> float32" where
  "minimum32 a b = (if a = NaN32 \<or> b = NaN32 then NaN32 else if lt32 b a then b else a)"

definition clip32 :: "float32 \<Rightarrow> float32 \<Rightarrow> float32 \<Rightarrow> float32" where
  "clip32 a lo hi = minimum32 (maximum32 a lo) hi"

fun sub32 :: "float32 \<Rightarrow> float32 \<Rightarrow> float32" where
  "sub32 (F32 a) (F32 b) = round32 (a - b)"
| "sub32 NaN32 _ = NaN32"
| "sub32 _ NaN32 = NaN32"
| "sub32 PInf PInf = NaN32"
| "sub32 NInf NInf = NaN32"
| "sub32 PInf _ = PInf"
| "sub32 NInf _ = NInf"
| "sub32 _ PInf = NInf"
| "sub32 _ NInf = PInf"

fun div32 :: "float32 \<Rightarrow> float32 \<Rightarrow> float32" where
  "div32 (F32 a) (F32 b) =
     (if b = 0 then (if a = 0 then NaN32 else if 0 < a then PInf else NInf)
      else round32 (a / b))"
| "div32 NaN32 _ = NaN32"
| "div32 _ NaN32 = NaN32"
| "div32 (F32 a) _ = F32 0"
| "div32 PInf (F32 b) = (if 0 \<le> b then PInf else NInf)"
| "div32 NInf (F32 b) = (if 0 \<le> b then NInf else PInf)"
| "div32 _ _ = NaN32"

section \<open>Contact scores: \<^verbatim>\<open>get_extrinsic_contact\<close>, lines 273 to 288\<close>

text \<open>
  The score of one distance, before the dropout, in float32. The array statements of the
  source are elementwise, so each of them is one \<open>let\<close> here:
  \<^verbatim>\<open>d[np.where(d > threshold)] = threshold\<close>,
  \<^verbatim>\<open>d = np.clip(d, 0.0, threshold)\<close>, \<^verbatim>\<open>d = 1.0 - d / threshold\<close>,
  \<^verbatim>\<open>d = np.clip(d, 0.0, 1.0)\<close> and \<^verbatim>\<open>d[d > 0.1] = 1.0\<close>.
\<close>

definition score32 :: "real \<Rightarrow> float32 \<Rightarrow> float32" where
  "score32 threshold d0 =
     (let t = round32 threshold;
          d1 = (if lt32 t d0 then t else d0);
          d2 = clip32 d1 (F32 0) t;
          d3 = sub32 (F32 1) (div32 d2 t);
          d4 = clip32 d3 (F32 0) (F32 1)
      in if lt32 (round32 (1 / 10)) d4 then F32 1 else d4)"

definition score_elem :: "real \<Rightarrow> npfloat \<Rightarrow> npfloat" where
  "score_elem threshold d0 = of32 (score32 threshold (to32 d0))"

definition contact_scores :: "real \<Rightarrow> npfloat list \<Rightarrow> npfloat list" where
  "contact_scores threshold di = map (score_elem threshold) di"

text \<open>
  The dropout. \<^verbatim>\<open>np.where(d == 1.0)[0]\<close> lists the positions of the entries equal to one,
  in increasing order. The two random draws are arguments: \<open>shuffle\<close> is what
  \<^verbatim>\<open>np.random.shuffle\<close> makes of the index array and \<open>u\<close> is the value of
  \<^verbatim>\<open>np.random.uniform(0.0, 0.1)\<close>. Python's \<^verbatim>\<open>int\<close> truncates towards zero and raises
  on NaN; \<^verbatim>\<open>indices[:k]\<close> with a negative \<open>k\<close> drops the last \<open>-k\<close> entries.
\<close>

definition where_one :: "npfloat list \<Rightarrow> nat list" where
  "where_one d = filter (\<lambda>i. d ! i = Fin 1) [0..<length d]"

definition py_int :: "npfloat \<Rightarrow> error + int" where
  "py_int x = (case x of NaN \<Rightarrow> Inl ValueError
                | Fin r \<Rightarrow> Inr (if 0 \<le> r then \<lfloor>r\<rfloor> else \<lceil>r\<rceil>))"

definition slice_to :: "int \<Rightarrow> 'a list \<Rightarrow> 'a list" where
  "slice_to k xs = (if 0 \<le> k then take (nat k) xs else take (length xs - nat (- k)) xs)"

definition assign_zero :: "nat list \<Rightarrow> npfloat list \<Rightarrow> npfloat list" where
  "assign_zero idx d = fold (\<lambda>i acc. acc[i := Fin 0]) idx d"

definition dropout :: "(nat list \<Rightarrow> nat list) \<Rightarrow> real \<Rightarrow> npfloat list \<Rightarrow> error + npfloat list" where
  "dropout shuffle u d =
     (let indices = where_one d in
      if length indices > 0 then
        (let shuffled = shuffle indices in
         case py_int (nmul (nsum (map (\<lambda>i. d ! i) shuffled)) (Fin u)) of
           Inl e \<Rightarrow> Inl e
         | Inr num_idx \<Rightarrow> Inr (assign_zero (slice_to num_idx shuffled) d))
      else Inr d)"

text \<open>
  The score as the specification words it, \<open>clip(1 - clip(d, 0, t)/t, 0, 1)\<close> with the values
  above the cutoff set to one, for the float32 threshold \<open>t\<close>, with the quotient, the
  difference and the cutoff \<open>0.1\<close> in float32.
\<close>

definition clip :: "real \<Rightarrow> real \<Rightarrow> real \<Rightarrow> real" where
  "clip x lo hi = min (max x lo) hi"

definition spec_score32 :: "real \<Rightarrow> real \<Rightarrow> npfloat" where
  "spec_score32 t d =
     (let s = of32 (clip32 (sub32 (F32 1) (div32 (F32 (clip d 0 t)) (F32 t))) (F32 0) (F32 1))
      in if ngt s (of32 (round32 (1 / 10))) then Fin 1 else s)"

section \<open>Poses: \<^verbatim>\<open>estimate_pose\<close> and \<^verbatim>\<open>estimate_pose_batch\<close>\<close>

text \<open>
  A pose is a \<open>4 \<times> 4\<close> array, a tuple of four rows here. \<open>rot_block\<close> is the slice
  \<^verbatim>\<open>pose[:3, :3]\<close>, \<open>pos_col\<close> the slice \<^verbatim>\<open>pose[:3, 3]\<close> and \<open>z_col\<close> the slice
  \<^verbatim>\<open>rot[:, 2]\<close>. In NumPy these slices are views of the pose array, so the in-place
  division of the source writes into the caller's array: \<open>set_z_col\<close> is that write.
\<close>

type_synonym vec3 = "npfloat \<times> npfloat \<times> npfloat"
type_synonym mat3 = "vec3 \<times> vec3 \<times> vec3"
type_synonym vec4 = "npfloat \<times> npfloat \<times> npfloat \<times> npfloat"
type_synonym mat4 = "vec4 \<times> vec4 \<times> vec4 \<times> vec4"

fun rot_block :: "mat4 \<Rightarrow> mat3" where
  "rot_block ((a00, a01, a02, a03), (a10, a11, a12, a13), (a20, a21, a22, a23), r3) =
     ((a00, a01, a02), (a10, a11, a12), (a20, a21, a22))"

fun pos_col :: "mat4 \<Rightarrow> vec3" where
  "pos_col ((a00, a01, a02, a03), (a10, a11, a12, a13), (a20, a21, a22, a23), r3) =
     (a03, a13, a23)"

fun bottom_row :: "mat4 \<Rightarrow> vec4" where
  "bottom_row (r0, r1, r2, r3) = r3"

fun x_col :: "mat3 \<Rightarrow> vec3" where
  "x_col ((a00, a01, a02), (a10, a11, a12), (a20, a21, a22)) = (a00, a10, a20)"

fun y_col :: "mat3 \<Rightarrow> vec3" where
  "y_col ((a00, a01, a02), (a10, a11, a12), (a20, a21, a22)) = (a01, a11, a21)"

fun z_col :: "mat3 \<Rightarrow> vec3" where
  "z_col ((a00, a01, a02), (a10, a11, a12), (a20, a21, a22)) = (a02, a12, a22)"

fun set_z_col :: "mat4 \<Rightarrow> vec3 \<Rightarrow> mat4" where
  "set_z_col ((a00, a01, a02, a03), (a10, a11, a12, a13), (a20, a21, a22, a23), r3) (x, y, z) =
     ((a00, a01, x, a03), (a10, a11, y, a13), (a20, a21, z, a23), r3)"

definition eye3 :: mat3 where
  "eye3 = ((Fin 1, Fin 0, Fin 0), (Fin 0, Fin 1, Fin 0), (Fin 0, Fin 0, Fin 1))"

definition eye4 :: mat4 where
  "eye4 = ((Fin 1, Fin 0, Fin 0, Fin 0), (Fin 0, Fin 1, Fin 0, Fin 0),
           (Fin 0, Fin 0, Fin 1, Fin 0), (Fin 0, Fin 0, Fin 0, Fin 1))"

definition zeros3 :: vec3 where
  "zeros3 = (Fin 0, Fin 0, Fin 0)"

definition nan33 :: mat3 where
  "nan33 = ((NaN, NaN, NaN), (NaN, NaN, NaN), (NaN, NaN, NaN))"

fun vdot :: "vec3 \<Rightarrow> vec3 \<Rightarrow> npfloat" where
  "vdot (a, b, c) (x, y, z) = nadd (nadd (nmul a x) (nmul b y)) (nmul c z)"

fun vcross :: "vec3 \<Rightarrow> vec3 \<Rightarrow> vec3" where
  "vcross (a, b, c) (x, y, z) =
     (nsub (nmul b z) (nmul c y), nsub (nmul c x) (nmul a z), nsub (nmul a y) (nmul b x))"

definition vnorm :: "vec3 \<Rightarrow> npfloat" where
  "vnorm v = nsqrt (vdot v v)"

fun vdiv :: "vec3 \<Rightarrow> npfloat \<Rightarrow> vec3" where
  "vdiv (a, b, c) n = (ndiv a n, ndiv b n, ndiv c n)"

fun vscale :: "npfloat \<Rightarrow> vec3 \<Rightarrow> vec3" where
  "vscale k (a, b, c) = (nmul k a, nmul k b, nmul k c)"

fun mat_vec :: "mat3 \<Rightarrow> vec3 \<Rightarrow> vec3" where
  "mat_vec (r0, r1, r2) v = (vdot r0 v, vdot r1 v, vdot r2 v)"

fun matmul3 :: "mat3 \<Rightarrow> mat3 \<Rightarrow> mat3" where
  "matmul3 (r0, r1, r2) b =
     ((vdot r0 (x_col b), vdot r0 (y_col b), vdot r0 (z_col b)),
      (vdot r1 (x_col b), vdot r1 (y_col b), vdot r1 (z_col b)),
      (vdot r2 (x_col b), vdot r2 (y_col b), vdot r2 (z_col b)))"

text \<open>
  \<^verbatim>\<open>np.isclose(a, b)\<close> with the default tolerances \<^verbatim>\<open>rtol=1e-05\<close>, \<^verbatim>\<open>atol=1e-08\<close>;
  \<^verbatim>\<open>np.allclose\<close> of two scalars is the same test.
\<close>

fun np_isclose :: "npfloat \<Rightarrow> npfloat \<Rightarrow> bool" where
  "np_isclose (Fin a) (Fin b) = (\<bar>a - b\<bar> \<le> 1 / 10 ^ 8 + 1 / 10 ^ 5 * \<bar>b\<bar>)"
| "np_isclose _ _ = False"

fun narccos :: "npfloat \<Rightarrow> npfloat" where
  "narccos (Fin a) = (if - 1 \<le> a \<and> a \<le> 1 then Fin (arccos a) else NaN)"
| "narccos NaN = NaN"

text \<open>
  \<^verbatim>\<open>R.from_rotvec(v).as_matrix()\<close> of SciPy, by its documentation: the rotation about the
  axis \<open>v / |v|\<close> by the angle \<open>|v|\<close>, the identity for \<open>v = 0\<close>. A NaN in \<open>v\<close> makes the
  norm, and with it every entry of the matrix, NaN.
\<close>

fun from_rotvec :: "vec3 \<Rightarrow> mat3" where
  "from_rotvec (Fin x, Fin y, Fin z) =
     (let angle = sqrt (x * x + y * y + z * z) in
      if angle = 0 then eye3
      else
        (let kx = x / angle; ky = y / angle; kz = z / angle;
             c = cos angle; s = sin angle; v = 1 - c
         in ((Fin (c + kx * kx * v), Fin (kx * ky * v - kz * s), Fin (kx * kz * v + ky * s)),
             (Fin (ky * kx * v + kz * s), Fin (c + ky * ky * v), Fin (ky * kz * v - kx * s)),
             (Fin (kz * kx * v - ky * s), Fin (kz * ky * v + kx * s), Fin (c + kz * kz * v)))))"
| "from_rotvec _ = nan33"

text \<open>
  The returned array: \<^verbatim>\<open>np.eye(4)\<close> with the rotation block and the position column
  assigned (in the batched function an uninitialised array with the two blocks and the last
  row assigned, which is the same array).
\<close>

fun make_pose :: "mat3 \<Rightarrow> vec3 \<Rightarrow> mat4" where
  "make_pose ((a00, a01, a02), (a10, a11, a12), (a20, a21, a22)) (x, y, z) =
     ((a00, a01, a02, x), (a10, a11, a12, y), (a20, a21, a22, z),
      (Fin 0, Fin 0, Fin 0, Fin 1))"

text \<open>
  \<open>estimate_pose\<close> returns the tracked pose and, as the second component, the caller's
  \<^verbatim>\<open>curr_pose\<close> array as the call leaves it. \<^verbatim>\<open>prev_pose\<close> is a separate array
  (or \<^verbatim>\<open>None\<close>).
\<close>

definition estimate_pose :: "mat4 \<Rightarrow> mat4 option \<Rightarrow> mat4 \<times> mat4" where
  "estimate_pose curr_pose0 prev_pose_arg =
     (let z0 = z_col (rot_block curr_pose0);
          curr_z_dir = vdiv z0 (vnorm z0);
          curr_pose = set_z_col curr_pose0 curr_z_dir;
          curr_pos = pos_col curr_pose;
          prev_pose = (case prev_pose_arg of None \<Rightarrow> eye4 | Some p \<Rightarrow> p);
          prev_rot = rot_block prev_pose;
          prev_z_dir = z_col prev_rot;
          cos_dist = vdot prev_z_dir curr_z_dir;
          delta_rot =
            (if \<not> np_isclose cos_dist (Fin 1) then
               (let axis0 = vcross prev_z_dir curr_z_dir;
                    axis = vdiv axis0 (vnorm axis0);
                    angle = narccos cos_dist
                in from_rotvec (vscale angle axis))
             else eye3)
      in (make_pose (matmul3 delta_rot prev_rot) curr_pos, curr_pose))"

text \<open>
  One row of the batched function. \<^verbatim>\<open>np.where(norms > 0.0, axes / norms, 0)\<close> selects
  elementwise, so the quotient is not used where the norm is not positive.
\<close>

definition estimate_pose_row :: "mat4 \<Rightarrow> mat4 \<Rightarrow> mat4 \<times> mat4" where
  "estimate_pose_row curr_pose0 prev_pose =
     (let z0 = z_col (rot_block curr_pose0);
          curr_z_dir = vdiv z0 (vnorm z0);
          curr_pose = set_z_col curr_pose0 curr_z_dir;
          curr_pos = pos_col curr_pose;
          prev_rot = rot_block prev_pose;
          prev_z_dir = z_col prev_rot;
          cos_dist = vdot prev_z_dir curr_z_dir;
          no_rotation_needed = np_isclose cos_dist (Fin 1);
          axes0 = vcross prev_z_dir curr_z_dir;
          norms = vnorm axes0;
          axes = (if ngt norms (Fin 0) then vdiv axes0 norms else zeros3);
          angles = narccos (np_clip cos_dist (Fin (- 1)) (Fin 1));
          delta_rot0 = from_rotvec (vscale angles axes);
          delta_rot = (if no_rotation_needed then eye3 else delta_rot0)
      in (make_pose (matmul3 delta_rot prev_rot) curr_pos, curr_pose))"

text \<open>
  The batch is the list of its rows. NumPy broadcasts a single previous pose over the
  batch of current poses; any other difference in size raises.
\<close>

definition estimate_pose_batch :: "mat4 list \<Rightarrow> mat4 list \<Rightarrow> error + (mat4 list \<times> mat4 list)" where
  "estimate_pose_batch curr_poses prev_poses =
     (let prevs = (if length prev_poses = 1 then replicate (length curr_poses) (hd prev_poses)
                   else prev_poses)
      in if length curr_poses \<noteq> length prevs then Inl ValueError
         else (let rows = map (\<lambda>(c, p). estimate_pose_row c p) (zip curr_poses prevs)
               in Inr (map fst rows, map snd rows)))"

text \<open>Finite poses: the embedding of real arrays.\<close>

type_synonym rvec3 = "real \<times> real \<times> real"
type_synonym rvec4 = "real \<times> real \<times> real \<times> real"
type_synonym rmat4 = "rvec4 \<times> rvec4 \<times> rvec4 \<times> rvec4"

fun fin3 :: "rvec3 \<Rightarrow> vec3" where
  "fin3 (a, b, c) = (Fin a, Fin b, Fin c)"

fun fin4 :: "rvec4 \<Rightarrow> vec4" where
  "fin4 (a, b, c, d) = (Fin a, Fin b, Fin c, Fin d)"

fun fin_pose :: "rmat4 \<Rightarrow> mat4" where
  "fin_pose (r0, r1, r2, r3) = (fin4 r0, fin4 r1, fin4 r2, fin4 r3)"

text \<open>
  A pose rotated about its own Z axis by \<open>\<theta>\<close>: the product \<^verbatim>\<open>pose @ Rz\<close> with the
  homogeneous rotation \<open>Rz\<close> about Z.
\<close>

fun vdot4 :: "vec4 \<Rightarrow> vec4 \<Rightarrow> npfloat" where
  "vdot4 (a, b, c, d) (x, y, z, w) =
     nadd (nadd (nadd (nmul a x) (nmul b y)) (nmul c z)) (nmul d w)"

fun matmul4 :: "mat4 \<Rightarrow> mat4 \<Rightarrow> mat4" where
  "matmul4 (r0, r1, r2, r3)
           ((b00, b01, b02, b03), (b10, b11, b12, b13), (b20, b21, b22, b23), (b30, b31, b32, b33)) =
     (let c0 = (b00, b10, b20, b30); c1 = (b01, b11, b21, b31);
          c2 = (b02, b12, b22, b32); c3 = (b03, b13, b23, b33)
      in ((vdot4 r0 c0, vdot4 r0 c1, vdot4 r0 c2, vdot4 r0 c3),
          (vdot4 r1 c0, vdot4 r1 c1, vdot4 r1 c2, vdot4 r1 c3),
          (vdot4 r2 c0, vdot4 r2 c1, vdot4 r2 c2, vdot4 r2 c3),
          (vdot4 r3 c0, vdot4 r3 c1, vdot4 r3 c2, vdot4 r3 c3)))"

definition rot_z :: "real \<Rightarrow> mat4" where
  "rot_z \<theta> = ((Fin (cos \<theta>), Fin (- sin \<theta>), Fin 0, Fin 0),
              (Fin (sin \<theta>), Fin (cos \<theta>), Fin 0, Fin 0),
              (Fin 0, Fin 0, Fin 1, Fin 0),
              (Fin 0, Fin 0, Fin 0, Fin 1))"

definition rotate_local_z :: "mat4 \<Rightarrow> real \<Rightarrow> mat4" where
  "rotate_local_z pose \<theta> = matmul4 pose (rot_z \<theta>)"

text \<open>
  The words of the specification for the tracked rotation. \<open>curr_z_of\<close> is the normalised
  Z direction of the current pose. \<open>tilt_rotation\<close> is the delta rotation as the
  specification describes it: the axis-angle rotation with axis
  \<open>normalize(cross(prev_z, curr_z))\<close> and angle \<open>arccos(clip(dot(prev_z, curr_z), -1, 1))\<close>.
\<close>

definition curr_z_of :: "mat4 \<Rightarrow> vec3" where
  "curr_z_of pose = vdiv (z_col (rot_block pose)) (vnorm (z_col (rot_block pose)))"

definition prev_z_of :: "mat4 \<Rightarrow> vec3" where
  "prev_z_of pose = z_col (rot_block pose)"

definition tilt_rotation :: "vec3 \<Rightarrow> vec3 \<Rightarrow> mat3" where
  "tilt_rotation prev_z curr_z =
     from_rotvec
       (vscale (narccos (np_clip (vdot prev_z curr_z) (Fin (- 1)) (Fin 1)))
          (vdiv (vcross prev_z curr_z) (vnorm (vcross prev_z curr_z))))"

text \<open>Example poses: the identity, a half turn about X (its Z axis points down), a
  tilt about Y by the angle with sine \<open>3/5\<close>, and a tilt about Y by about a ninth of a
  degree.\<close>

definition pose_identity :: rmat4 where
  "pose_identity = ((1, 0, 0, 0), (0, 1, 0, 0), (0, 0, 1, 0), (0, 0, 0, 1))"

definition pose_flipped :: rmat4 where
  "pose_flipped = ((1, 0, 0, 2), (0, - 1, 0, 3), (0, 0, - 1, 4), (0, 0, 0, 1))"

definition pose_tilted :: rmat4 where
  "pose_tilted = ((4 / 5, 0, 3 / 5, 1), (0, 1, 0, 2), (- (3 / 5), 0, 4 / 5, 3), (0, 0, 0, 1))"

definition pose_near :: rmat4 where
  "pose_near = ((999999 / 1000001, 0, 2000 / 1000001, 0), (0, 1, 0, 0),
                (- (2000 / 1000001), 0, 999999 / 1000001, 0), (0, 0, 0, 1))"

definition pose_stretched :: rmat4 where
  "pose_stretched = ((1, 0, 0, 0), (0, 1, 0, 0), (0, 0, 2, 0), (0, 0, 0, 1))"

section \<open>The estimator: construction, socket reposition, point clouds\<close>

text \<open>
  A triangle mesh as trimesh holds it: vertex positions and triangles of vertex indices.
  The three operations of trimesh that the estimator calls are taken as the library
  computes them: \<open>sample_surface_even\<close> is the outcome of
  \<^verbatim>\<open>trimesh.sample.sample_surface_even(mesh, count)[0]\<close> in the call at hand,
  \<open>apply_scale\<close> and \<open>apply_transform_mesh\<close> are the mesh methods \<^verbatim>\<open>apply_scale\<close> and
  \<^verbatim>\<open>apply_transform\<close>. trimesh leaves a mesh as it is when it takes the matrix for the
  identity, and the sampler rejects points, so neither is replaced by a formula here.
\<close>

record mesh =
  vertices :: "rvec3 list"
  faces :: "(nat \<times> nat \<times> nat) list"

record trimesh_lib =
  sample_surface_even :: "mesh \<Rightarrow> nat \<Rightarrow> rvec3 list"
  apply_scale :: "real \<Rightarrow> mesh \<Rightarrow> mesh"
  apply_transform_mesh :: "rmat4 \<Rightarrow> mesh \<Rightarrow> mesh"

fun scale_point :: "real \<Rightarrow> rvec3 \<Rightarrow> rvec3" where
  "scale_point k (x, y, z) = (x * k, y * k, z * k)"

text \<open>\<^verbatim>\<open>T = np.eye(4); T[0:3, -1] = socket_pos\<close>.\<close>

fun translation_matrix :: "rvec3 \<Rightarrow> rmat4" where
  "translation_matrix (x, y, z) = ((1, 0, 0, x), (0, 1, 0, y), (0, 0, 1, z), (0, 0, 0, 1))"

text \<open>
  The fields of \<^verbatim>\<open>ExtrinsicContact\<close>. \<open>socket\<close> is the ray-casting scene, which holds the
  triangles it was built from; the attribute exists only after the constructor ran with
  \<^verbatim>\<open>calc_contact\<close> set or after \<^verbatim>\<open>reset_socket_pos\<close>. The plotting fields and the
  device name are left out.
\<close>

record estimator =
  calc_contact :: bool
  socket_trimesh :: mesh
  reset_socket_trimesh :: mesh
  socket_pos :: rvec3
  socket_pcl :: "rvec3 list"
  socket_pc :: "rvec3 list"
  socket :: "mesh option"
  object_trimesh :: mesh
  pointcloud_obj :: "rvec3 list"
  object_pc :: "rvec3 list"
  n_points :: nat
  gt_extrinsic_contact :: "real list list"
  num_envs :: nat
  plug_pose_no_rot :: "rmat4 list"

text \<open>
  \<open>init\<close> is the constructor, given the library and the two meshes as \<^verbatim>\<open>trimesh.load\<close>
  returned them. Without \<^verbatim>\<open>calc_contact\<close> the constructor does not create the \<open>socket\<close>
  attribute.
\<close>

definition init ::
  "trimesh_lib \<Rightarrow> mesh \<Rightarrow> mesh \<Rightarrow> real \<Rightarrow> real \<Rightarrow> rvec3 \<Rightarrow> nat \<Rightarrow> nat \<Rightarrow> bool \<Rightarrow> estimator" where
  "init lib mesh_obj mesh_socket obj_scale socket_scale socket_pos0 num_envs0 num_points
        calc_contact0 =
     (let reset_mesh = mesh_socket;
          socket_mesh = apply_scale lib socket_scale mesh_socket;
          socket_pcl0 = sample_surface_even lib socket_mesh num_points;
          object_mesh = apply_scale lib obj_scale mesh_obj;
          pointcloud_obj0 = sample_surface_even lib object_mesh num_points
      in \<lparr>calc_contact = calc_contact0,
          socket_trimesh = socket_mesh,
          reset_socket_trimesh = reset_mesh,
          socket_pos = socket_pos0,
          socket_pcl = socket_pcl0,
          socket_pc = socket_pcl0,
          socket = (if calc_contact0 then Some socket_mesh else None),
          object_trimesh = object_mesh,
          pointcloud_obj = pointcloud_obj0,
          object_pc = pointcloud_obj0,
          n_points = num_points,
          gt_extrinsic_contact = replicate num_envs0 (replicate num_points 0),
          num_envs = num_envs0,
          plug_pose_no_rot = replicate num_envs0 pose_identity\<rparr>)"

definition reset_socket_pos :: "trimesh_lib \<Rightarrow> estimator \<Rightarrow> rvec3 \<Rightarrow> estimator" where
  "reset_socket_pos lib est socket_pos1 =
     (let scaled = apply_scale lib 1 (reset_socket_trimesh est);
          socket_mesh = apply_transform_mesh lib (translation_matrix socket_pos1) scaled
      in est\<lparr>socket_trimesh := socket_mesh,
              socket_pos := socket_pos1,
              socket := Some socket_mesh,
              socket_pcl := sample_surface_even lib socket_mesh (n_points est),
              plug_pose_no_rot := replicate (num_envs est) pose_identity\<rparr>)"

text \<open>
  \<^verbatim>\<open>_xyzquat_to_tf_numpy\<close> after \<^verbatim>\<open>torch.cat((pos, quat), dim=1)\<close>. The concatenation
  needs as many positions as quaternions. \<^verbatim>\<open>R.from_quat\<close> takes \<open>(x, y, z, w)\<close>,
  normalises it and raises on a quaternion of norm zero; \<^verbatim>\<open>as_matrix\<close> is the matrix of
  the normalised quaternion.
\<close>

type_synonym quat = "real \<times> real \<times> real \<times> real"

fun quat_norm :: "quat \<Rightarrow> real" where
  "quat_norm (x, y, z, w) = sqrt (x * x + y * y + z * z + w * w)"

fun quat_pose :: "rvec3 \<Rightarrow> quat \<Rightarrow> rmat4" where
  "quat_pose (px, py, pz) (x0, y0, z0, w0) =
     (let n = quat_norm (x0, y0, z0, w0);
          x = x0 / n; y = y0 / n; z = z0 / n; w = w0 / n
      in ((x * x - y * y - z * z + w * w, 2 * (x * y - z * w), 2 * (x * z + y * w), px),
          (2 * (x * y + z * w), - (x * x) + y * y - z * z + w * w, 2 * (y * z - x * w), py),
          (2 * (x * z - y * w), 2 * (y * z + x * w), - (x * x) - y * y + z * z + w * w, pz),
          (0, 0, 0, 1)))"

definition xyzquat_to_tf :: "rvec3 list \<Rightarrow> quat list \<Rightarrow> error + rmat4 list" where
  "xyzquat_to_tf pos quats =
     (if length pos \<noteq> length quats then Inl RuntimeError
      else if \<exists>q \<in> set quats. quat_norm q = 0 then Inl ValueError
      else Inr (map (\<lambda>(p, q). quat_pose p q) (zip pos quats)))"

text \<open>
  \<^verbatim>\<open>apply_transform\<close>: every pose applied to every point in homogeneous coordinates, the
  first three coordinates kept.
\<close>

fun transform_point :: "rmat4 \<Rightarrow> rvec3 \<Rightarrow> rvec3" where
  "transform_point ((a00, a01, a02, a03), (a10, a11, a12, a13), (a20, a21, a22, a23), r3) (x, y, z) =
     (a00 * x + a01 * y + a02 * z + a03 * 1,
      a10 * x + a11 * y + a12 * z + a13 * 1,
      a20 * x + a21 * y + a22 * z + a23 * 1)"

definition apply_transform :: "rmat4 list \<Rightarrow> rvec3 list \<Rightarrow> rvec3 list list" where
  "apply_transform poses pc_vertices = map (\<lambda>T. map (transform_point T) pc_vertices) poses"

text \<open>\<^verbatim>\<open>flatten(start_dim=1)\<close> of one instance, and \<^verbatim>\<open>view(-1, n)\<close> of a flat array.\<close>

fun coords :: "rvec3 \<Rightarrow> real list" where
  "coords (x, y, z) = [x, y, z]"

definition flatten_points :: "rvec3 list \<Rightarrow> real list" where
  "flatten_points pts = concat (map coords pts)"

definition view_rows :: "nat \<Rightarrow> 'a list \<Rightarrow> error + 'a list list" where
  "view_rows n d =
     (if n = 0 \<or> length d mod n \<noteq> 0 then Inl RuntimeError
      else Inr (map (\<lambda>k. take n (drop (k * n) d)) [0..<length d div n]))"

text \<open>
  \<^verbatim>\<open>get_extrinsic_contact\<close> with \<^verbatim>\<open>display=False\<close>. \<open>compute_distance\<close> stands for the
  cast of a query point to float32 and the distance query of the ray-casting scene, whose
  value is a float32 number; \<open>shuffle\<close> and \<open>u\<close> stand for the two random draws of the
  dropout. \<^verbatim>\<open>plug_scale\<close> is not used by the source.
\<close>

definition get_extrinsic_contact ::
  "(mesh \<Rightarrow> rvec3 \<Rightarrow> real) \<Rightarrow> (nat list \<Rightarrow> nat list) \<Rightarrow> real \<Rightarrow> estimator
     \<Rightarrow> rvec3 list \<Rightarrow> quat list \<Rightarrow> rvec3 list \<Rightarrow> quat list \<Rightarrow> real list \<Rightarrow> real
     \<Rightarrow> error + npfloat list list" where
  "get_extrinsic_contact compute_distance shuffle u est obj_pos obj_quat socket_pos1 socket_quat
        plug_scale threshold =
     (case xyzquat_to_tf obj_pos obj_quat of
        Inl e \<Rightarrow> Inl e
      | Inr object_poses \<Rightarrow>
          (case xyzquat_to_tf socket_pos1 socket_quat of
             Inl e \<Rightarrow> Inl e
           | Inr socket_poses \<Rightarrow>
               (let query_points = apply_transform object_poses (object_pc est) in
                case socket est of
                  None \<Rightarrow> Inl AttributeError
                | Some scene \<Rightarrow>
                    (let di = map (compute_distance scene) (concat query_points);
                         d = contact_scores threshold (map Fin di)
                     in case dropout shuffle u d of
                          Inl e \<Rightarrow> Inl e
                        | Inr d1 \<Rightarrow> view_rows (n_points est) d1))))"

text \<open>
  \<^verbatim>\<open>get_pcl\<close> with \<^verbatim>\<open>display=False\<close>: the plug cloud, the plug cloud at the socket pose
  and the socket cloud \<open>socket_pc\<close>, concatenated per instance and subsampled. \<open>choice\<close>
  stands for \<^verbatim>\<open>np.random.choice(n, k, replace=False)\<close>.
\<close>

definition get_pcl ::
  "(nat \<Rightarrow> nat \<Rightarrow> nat list) \<Rightarrow> estimator \<Rightarrow> rvec3 list \<Rightarrow> quat list \<Rightarrow> rvec3 list \<Rightarrow> quat list
     \<Rightarrow> error + real list list" where
  "get_pcl choice est obj_pos obj_quat socket_pos1 socket_quat =
     (case xyzquat_to_tf obj_pos obj_quat of
        Inl e \<Rightarrow> Inl e
      | Inr object_poses \<Rightarrow>
          (case xyzquat_to_tf socket_pos1 socket_quat of
             Inl e \<Rightarrow> Inl e
           | Inr socket_poses \<Rightarrow>
               (let query_points_plug = apply_transform object_poses (object_pc est);
                    query_points_plug_goal = apply_transform socket_poses (object_pc est);
                    query_points_socket = apply_transform socket_poses (socket_pc est)
                in if length object_poses \<noteq> length socket_poses then Inl ValueError
                   else
                     (let merged_point_cloud =
                            map (\<lambda>(a, b, c). a @ b @ c)
                              (zip query_points_plug (zip query_points_plug_goal query_points_socket));
                          num_points = length (object_pc est);
                          sampled_indices =
                            choice (2 * length (object_pc est) + length (socket_pc est)) num_points
                      in Inr (map (\<lambda>row. flatten_points (map (\<lambda>i. row ! i) sampled_indices))
                                merged_point_cloud)))))"

text \<open>
  \<^verbatim>\<open>merge_goal_pcl\<close> with \<^verbatim>\<open>display=False\<close>. \<open>pcl\<close> is the existing cloud, one list of
  points per instance, and \<open>size1\<close> its \<^verbatim>\<open>size(1)\<close>. The loop over \<^verbatim>\<open>plug_scale\<close> indexes
  the socket poses and raises when there are fewer of them; \<^verbatim>\<open>np.stack\<close> raises on an
  empty list; \<^verbatim>\<open>torch.cat\<close> along the point axis needs as many instances in both clouds.
  \<open>randperm\<close> stands for \<^verbatim>\<open>torch.randperm\<close>.
\<close>

definition size1 :: "'a list list \<Rightarrow> nat" where
  "size1 t = (case t of [] \<Rightarrow> 0 | row # _ \<Rightarrow> length row)"

definition goal_points :: "estimator \<Rightarrow> rmat4 \<Rightarrow> real \<Rightarrow> rvec3 list" where
  "goal_points est pose k = map (transform_point pose) (map (scale_point k) (object_pc est))"

definition merge_goal_pcl ::
  "(nat \<Rightarrow> nat list) \<Rightarrow> estimator \<Rightarrow> rvec3 list list \<Rightarrow> rvec3 list \<Rightarrow> quat list \<Rightarrow> real list
     \<Rightarrow> error + real list list" where
  "merge_goal_pcl randperm est pcl socket_pos1 socket_quat plug_scale =
     (case xyzquat_to_tf socket_pos1 socket_quat of
        Inl e \<Rightarrow> Inl e
      | Inr socket_poses \<Rightarrow>
          if length socket_poses < length plug_scale then Inl IndexError
          else if plug_scale = [] then Inl ValueError
          else
            (let query_points_plug_goal =
                   map (\<lambda>i. goal_points est (socket_poses ! i) (plug_scale ! i))
                     [0..<length plug_scale]
             in if length pcl \<noteq> length query_points_plug_goal then Inl RuntimeError
                else
                  (let merged_point_cloud =
                         map (\<lambda>(a, b). a @ b) (zip pcl query_points_plug_goal);
                       sampled_indices =
                         take (size1 pcl) (randperm (size1 merged_point_cloud))
                   in Inr (map (\<lambda>row. flatten_points (map (\<lambda>i. row ! i) sampled_indices))
                             merged_point_cloud))))"

text \<open>
  Examples. \<open>lib_example\<close> is a possible behaviour of the library: the sampler returns the
  first corners of the mesh, as many as asked for and at most all of them, scaling
  multiplies every vertex and a transform is applied to every vertex. \<open>est_example\<close> has the
  triangle with corners on the three axes as plug and socket, the socket scaled by two, one
  sample point and one instance; \<open>est_short\<close> asks for five sample points of the same
  triangle and gets three.
\<close>

definition triangle :: mesh where
  "triangle = \<lparr>vertices = [(1, 0, 0), (0, 1, 0), (0, 0, 1)], faces = [(0, 1, 2)]\<rparr>"

definition first_vertices :: "mesh \<Rightarrow> nat \<Rightarrow> rvec3 list" where
  "first_vertices m k = take k (vertices m)"

definition scale_vertices :: "real \<Rightarrow> mesh \<Rightarrow> mesh" where
  "scale_vertices k m = m\<lparr>vertices := map (scale_point k) (vertices m)\<rparr>"

definition transform_vertices :: "rmat4 \<Rightarrow> mesh \<Rightarrow> mesh" where
  "transform_vertices T m = m\<lparr>vertices := map (transform_point T) (vertices m)\<rparr>"

definition lib_example :: trimesh_lib where
  "lib_example = \<lparr>sample_surface_even = first_vertices, apply_scale = scale_vertices,
                   apply_transform_mesh = transform_vertices\<rparr>"

definition est_example :: estimator where
  "est_example = init lib_example triangle triangle 1 2 (1 / 2, 0, 1 / 1000) 1 1 True"

definition est_short :: estimator where
  "est_short = init lib_example triangle triangle 1 1 (1 / 2, 0, 1 / 1000) 1 5 True"

text \<open>
  \<open>est_unit\<close> is the example with the socket not scaled, \<open>est_no_contact\<close> the example built
  with the default \<^verbatim>\<open>calc_contact=False\<close>, and \<open>est_stale\<close> the example with another socket
  mesh, position, sample and no scene left from before.
\<close>

definition est_no_contact :: estimator where
  "est_no_contact = init lib_example triangle triangle 1 2 (1 / 2, 0, 1 / 1000) 1 1 False"

definition est_unit :: estimator where
  "est_unit = init lib_example triangle triangle 1 1 (1 / 2, 0, 1 / 1000) 1 1 True"

definition est_stale :: estimator where
  "est_stale = est_example\<lparr>socket_trimesh := triangle, socket_pos := (9, 9, 9),
                             socket_pcl := [], socket := None\<rparr>"

section \<open>Properties of the float32 rounding\<close>

lemma pow2_pos [simp]: "0 < pow2 e"
  by (simp add: pow2_def)

lemma pow2_add: "pow2 (a + b) = pow2 a * pow2 b"
  by (simp add: pow2_def powr_add)

lemma pow2_nat: "pow2 (int n) = 2 ^ n"
  by (simp add: pow2_def powr_realpow)

lemma pow2_mono: "a \<le> b \<Longrightarrow> pow2 a \<le> pow2 b"
  by (simp add: pow2_def)

lemma pow2_less: "a < b \<Longrightarrow> pow2 a < pow2 b"
  by (simp add: pow2_def)

lemma pow2_split: "a \<le> b \<Longrightarrow> pow2 b = pow2 a * 2 ^ nat (b - a)"
proof -
  assume "a \<le> b"
  then have "b = a + int (nat (b - a))" by simp
  then have "pow2 b = pow2 a * pow2 (int (nat (b - a)))" by (metis pow2_add)
  then show ?thesis by (simp only: pow2_nat)
qed

lemma rhe_int [simp]: "round_half_even (of_int k) = k"
  by (simp add: round_half_even_def)

lemma rhe_le_int: "x \<le> of_int m \<Longrightarrow> round_half_even x \<le> m"
proof -
  assume le: "x \<le> of_int m"
  show ?thesis
  proof (cases "x = of_int m")
    case True
    then show ?thesis by simp
  next
    case False
    then have "x < of_int m" using le by simp
    then have "\<lfloor>x\<rfloor> < m" by (simp add: floor_less_iff)
    then have "\<lfloor>x\<rfloor> + 1 \<le> m" by simp
    then show ?thesis by (auto simp: round_half_even_def Let_def)
  qed
qed

lemma rhe_ge_int: "of_int m \<le> x \<Longrightarrow> m \<le> round_half_even x"
proof -
  assume "of_int m \<le> x"
  then have "m \<le> \<lfloor>x\<rfloor>" by (simp add: le_floor_iff)
  then show ?thesis by (auto simp: round_half_even_def Let_def)
qed

lemma rhe_near: "\<bar>x - of_int k\<bar> < 1 / 2 \<Longrightarrow> round_half_even x = k"
proof -
  assume a: "\<bar>x - of_int k\<bar> < 1 / 2"
  show ?thesis
  proof (cases "of_int k \<le> x")
    case True
    then have "\<lfloor>x\<rfloor> = k" using a by (intro floor_unique) auto
    then show ?thesis using a True by (simp add: round_half_even_def)
  next
    case False
    then have "\<lfloor>x\<rfloor> = k - 1" using a by (intro floor_unique) auto
    then show ?thesis using a False by (auto simp: round_half_even_def)
  qed
qed

lemma exponent32_ge: "- 126 \<le> exponent32 x"
  by (simp add: exponent32_def)

lemma exponent32_mono: "0 < x \<Longrightarrow> x \<le> y \<Longrightarrow> exponent32 x \<le> exponent32 y"
proof -
  assume "0 < x" "x \<le> y"
  then have "log 2 \<bar>x\<bar> \<le> log 2 \<bar>y\<bar>" by simp
  then have "\<lfloor>log 2 \<bar>x\<bar>\<rfloor> \<le> \<lfloor>log 2 \<bar>y\<bar>\<rfloor>" by (rule floor_mono)
  then show ?thesis by (simp add: exponent32_def)
qed

lemma exponent32_upper: "0 < x \<Longrightarrow> x < pow2 (exponent32 x + 1)"
proof -
  assume x: "0 < x"
  have "pow2 \<lfloor>log 2 x\<rfloor> \<le> x \<and> x < pow2 (\<lfloor>log 2 x\<rfloor> + 1)"
    using floor_log_eq_powr_iff [of x 2 "\<lfloor>log 2 x\<rfloor>"] x by (simp add: pow2_def)
  moreover have "pow2 (\<lfloor>log 2 x\<rfloor> + 1) \<le> pow2 (exponent32 x + 1)"
    using x by (intro pow2_mono) (simp add: exponent32_def)
  ultimately show ?thesis by simp
qed

lemma exponent32_lower: "0 < x \<Longrightarrow> - 126 < exponent32 x \<Longrightarrow> pow2 (exponent32 x) \<le> x"
proof -
  assume x: "0 < x" and e: "- 126 < exponent32 x"
  have "exponent32 x = \<lfloor>log 2 x\<rfloor>" using e x by (simp add: exponent32_def max_def split: if_splits)
  moreover have "pow2 \<lfloor>log 2 x\<rfloor> \<le> x"
    using floor_log_eq_powr_iff [of x 2 "\<lfloor>log 2 x\<rfloor>"] x by (simp add: pow2_def)
  ultimately show ?thesis by simp
qed

lemma exponent32_eq:
  assumes "0 < x" and "pow2 e \<le> x" and "x < pow2 (e + 1)" and "- 126 \<le> e"
  shows "exponent32 x = e"
proof -
  have "\<lfloor>log 2 x\<rfloor> = e"
    using floor_log_eq_powr_iff [of x 2 e] assms by (simp add: pow2_def)
  then show ?thesis using assms by (simp add: exponent32_def)
qed

lemma exponent32_subnormal:
  assumes "0 < x" and "x < pow2 (- 126)"
  shows "exponent32 x = - 126"
proof -
  have "\<not> pow2 (- 126) \<le> x" using assms by simp
  have "\<lfloor>log 2 x\<rfloor> < - 126"
  proof (rule ccontr)
    assume "\<not> \<lfloor>log 2 x\<rfloor> < - 126"
    then have "- 126 \<le> \<lfloor>log 2 x\<rfloor>" by simp
    then have "pow2 (- 126) \<le> pow2 \<lfloor>log 2 x\<rfloor>" by (rule pow2_mono)
    moreover have "pow2 \<lfloor>log 2 x\<rfloor> \<le> x"
      using floor_log_eq_powr_iff [of x 2 "\<lfloor>log 2 x\<rfloor>"] assms by (simp add: pow2_def)
    ultimately show False using assms by simp
  qed
  then show ?thesis using assms by (simp add: exponent32_def)
qed

lemma round32_zero [simp]: "round32 0 = F32 0"
  by (simp add: round32_def)

lemma round32_pos_form:
  assumes "0 < x" and "round32 x = F32 r"
  shows "r = of_int (round_half_even (x / ulp32 x)) * ulp32 x" and "r < pow2 128"
  using assms by (auto simp: round32_def Let_def split: if_splits)

lemma ulp32_pos [simp]: "0 < ulp32 x"
  by (simp add: ulp32_def)

lemma ulp32_nonneg [simp]: "0 \<le> ulp32 x"
  by (simp add: ulp32_def less_imp_le)

lemma ulp32_nonzero [simp]: "ulp32 x \<noteq> 0"
  by (simp add: ulp32_def pow2_def)

lemma pow2_nonneg [simp]: "0 \<le> pow2 e"
  by (simp add: pow2_def)

text \<open>A float32 value above a positive number is a whole multiple of that number's unit.\<close>

lemma float32_multiple:
  assumes x: "0 < x" and xy: "x \<le> y" and fy: "round32 y = F32 y"
  shows "\<exists>m :: int. y = of_int m * ulp32 x"
proof -
  have y: "0 < y" using x xy by simp
  define k where "k = round_half_even (y / ulp32 y)"
  have yk: "y = of_int k * ulp32 y" using round32_pos_form(1) [OF y fy] by (simp add: k_def)
  have "exponent32 x - 23 \<le> exponent32 y - 23" using exponent32_mono [OF x xy] by simp
  then have "ulp32 y = ulp32 x * 2 ^ nat ((exponent32 y - 23) - (exponent32 x - 23))"
    unfolding ulp32_def by (rule pow2_split)
  then have "y = of_int (k * 2 ^ nat ((exponent32 y - 23) - (exponent32 x - 23))) * ulp32 x"
    using yk by (simp add: mult_ac)
  then show ?thesis by blast
qed

lemma round32_upper:
  assumes x: "0 \<le> x" and xy: "x \<le> y" and fy: "round32 y = F32 y"
  shows "\<exists>r. round32 x = F32 r \<and> 0 \<le> r \<and> r \<le> y"
proof (cases "x = 0")
  case True
  then show ?thesis using x xy by simp
next
  case False
  then have xp: "0 < x" using x by simp
  have yp: "0 < y" using xp xy by simp
  obtain m :: int where m: "y = of_int m * ulp32 x"
    using float32_multiple [OF xp xy fy] by blast
  define k where "k = round_half_even (x / ulp32 x)"
  have "x / ulp32 x \<le> y / ulp32 x" using xy by (intro divide_right_mono) simp_all
  also have "\<dots> = of_int m" using m by simp
  finally have km: "k \<le> m" unfolding k_def by (rule rhe_le_int)
  have "of_int 0 \<le> x / ulp32 x" using xp by simp
  then have k0: "0 \<le> k" unfolding k_def by (rule rhe_ge_int)
  define r where "r = of_int k * ulp32 x"
  have r0: "0 \<le> r" using k0 by (simp add: r_def)
  have "of_int k * ulp32 x \<le> of_int m * ulp32 x" using km by (simp add: mult_right_mono)
  then have ry: "r \<le> y" using m by (simp add: r_def)
  have "y < pow2 128" using round32_pos_form(2) [OF yp fy] .
  then have "r < pow2 128" using ry by simp
  moreover have "\<not> r \<le> - pow2 128"
  proof -
    have "- pow2 128 < 0" by simp
    then show ?thesis using r0 by linarith
  qed
  ultimately have "round32 x = F32 r"
    using False by (simp add: round32_def Let_def r_def k_def)
  then show ?thesis using r0 ry by blast
qed

lemma round32_lower:
  assumes y: "0 < y" and yx: "y \<le> x" and fy: "round32 y = F32 y" and fx: "round32 x = F32 r"
  shows "y \<le> r"
proof -
  have xp: "0 < x" using y yx by simp
  define k where "k = round_half_even (x / ulp32 x)"
  have r: "r = of_int k * ulp32 x" using round32_pos_form(1) [OF xp fx] by (simp add: k_def)
  have le: "exponent32 y \<le> exponent32 x" using y yx by (rule exponent32_mono)
  show ?thesis
  proof (cases "exponent32 y = exponent32 x")
    case True
    then have u: "ulp32 y = ulp32 x" by (simp add: ulp32_def)
    define j where "j = round_half_even (y / ulp32 y)"
    have yj: "y = of_int j * ulp32 x" using round32_pos_form(1) [OF y fy] u by (simp add: j_def)
    have "of_int j = y / ulp32 x" using yj by simp
    also have "\<dots> \<le> x / ulp32 x" using yx by (intro divide_right_mono) simp_all
    finally have "j \<le> k" unfolding k_def by (rule rhe_ge_int)
    then have "of_int j * ulp32 x \<le> of_int k * ulp32 x" by (simp add: mult_right_mono)
    then show ?thesis using yj r by simp
  next
    case False
    then have lt: "exponent32 y < exponent32 x" using le by simp
    then have big: "- 126 < exponent32 x" using exponent32_ge [of y] by linarith
    have px: "pow2 (exponent32 x) \<le> x" using xp big by (rule exponent32_lower)
    have split: "pow2 (exponent32 x) = ulp32 x * 2 ^ 23"
      using pow2_split [of "exponent32 x - 23" "exponent32 x"] by (simp add: ulp32_def)
    have "of_int (2 ^ 23) = pow2 (exponent32 x) / ulp32 x" using split by simp
    also have "\<dots> \<le> x / ulp32 x" using px by (intro divide_right_mono) simp_all
    finally have "2 ^ 23 \<le> k" unfolding k_def by (rule rhe_ge_int)
    then have "of_int (2 ^ 23) * ulp32 x \<le> of_int k * ulp32 x"
      by (intro mult_right_mono) (simp_all add: of_int_le_iff [symmetric] del: of_int_le_iff)
    then have "pow2 (exponent32 x) \<le> r" using split r by (simp add: mult.commute)
    moreover have "y < pow2 (exponent32 y + 1)" using y by (rule exponent32_upper)
    moreover have "pow2 (exponent32 y + 1) \<le> pow2 (exponent32 x)" using lt by (intro pow2_mono) simp
    ultimately show ?thesis by simp
  qed
qed

lemma round32_between:
  assumes y: "0 < y" and yx: "y \<le> x" and xz: "x \<le> z"
    and fy: "round32 y = F32 y" and fz: "round32 z = F32 z"
  shows "\<exists>r. round32 x = F32 r \<and> y \<le> r \<and> r \<le> z"
proof -
  have "0 \<le> x" using y yx by simp
  then obtain r where r: "round32 x = F32 r" and rz: "r \<le> z"
    using round32_upper [OF _ xz fz] by blast
  have "y \<le> r" using y yx fy r by (rule round32_lower)
  then show ?thesis using r rz by blast
qed

text \<open>Rounding a given positive number, from its binade and its nearest multiple.\<close>

lemma round32_eval:
  assumes x: "0 < x" and lo: "pow2 e \<le> x" and hi: "x < pow2 (e + 1)" and e: "- 126 \<le> e"
    and near: "\<bar>x / pow2 (e - 23) - of_int k\<bar> < 1 / 2"
    and fin: "of_int k * pow2 (e - 23) < pow2 128" and k: "0 \<le> k"
  shows "round32 x = F32 (of_int k * pow2 (e - 23))"
proof -
  have ex: "exponent32 x = e" using x lo hi e by (rule exponent32_eq)
  then have u: "ulp32 x = pow2 (e - 23)" by (simp add: ulp32_def)
  have rk: "round_half_even (x / pow2 (e - 23)) = k" using near by (rule rhe_near)
  have "0 \<le> of_int k * pow2 (e - 23)" using k by (intro mult_nonneg_nonneg) simp_all
  moreover have "- pow2 128 < 0" by simp
  ultimately have "\<not> of_int k * pow2 (e - 23) \<le> - pow2 128" by linarith
  then show ?thesis using x fin by (simp add: round32_def Let_def u rk)
qed

lemma round32_eval_subnormal:
  assumes x: "0 < x" and hi: "x < pow2 (- 126)"
    and near: "\<bar>x / pow2 (- 149) - of_int k\<bar> < 1 / 2" and k: "0 \<le> k"
    and fin: "of_int k * pow2 (- 149) < pow2 128"
  shows "round32 x = F32 (of_int k * pow2 (- 149))"
proof -
  have ex: "exponent32 x = - 126" using x hi by (rule exponent32_subnormal)
  then have u: "ulp32 x = pow2 (- 149)" by (simp add: ulp32_def)
  have rk: "round_half_even (x / pow2 (- 149)) = k" using near by (rule rhe_near)
  have "0 \<le> of_int k * pow2 (- 149)" using k by (intro mult_nonneg_nonneg) simp_all
  moreover have "- pow2 128 < 0" by simp
  ultimately have "\<not> of_int k * pow2 (- 149) \<le> - pow2 128" by linarith
  then show ?thesis using x fin by (simp add: round32_def Let_def u rk)
qed

lemma pow2_numeral [simp]: "pow2 (numeral n) = 2 ^ numeral n"
  by (simp add: pow2_def)

lemma pow2_neg_numeral [simp]: "pow2 (- numeral n) = 1 / 2 ^ numeral n"
  by (simp add: pow2_def powr_neg_numeral)

lemma pow2_0 [simp]: "pow2 0 = 1"
  by (simp add: pow2_def)

lemma pow2_1 [simp]: "pow2 1 = 2"
  by (simp add: pow2_def)

lemma pow2_minus_1 [simp]: "pow2 (- 1) = 1 / 2"
  by (simp add: pow2_def powr_minus inverse_eq_divide)

lemma round32_one: "round32 1 = F32 1"
  using round32_eval [of 1 0 "2 ^ 23"] by simp

lemma round32_threshold_example: "round32 (100000005 / 100000000) = F32 1"
  using round32_eval [of "100000005 / 100000000" 0 "2 ^ 23"] by simp

lemma round32_tenth: "round32 (1 / 10) = F32 (13421773 / 2 ^ 27)"
  using round32_eval [of "1 / 10" "- 4" 13421773] by simp

lemma round32_c: "round32 (15099494 / 2 ^ 24) = F32 (15099494 / 2 ^ 24)"
  using round32_eval [of "15099494 / 2 ^ 24" "- 1" 15099494] by simp

lemma round32_c1: "round32 (1677722 / 2 ^ 24) = F32 (1677722 / 2 ^ 24)"
  using round32_eval [of "1677722 / 2 ^ 24" "- 4" 13421776] by simp

lemma round32_tiny: "round32 (1 / 10 ^ 50) = F32 0"
  using round32_eval_subnormal [of "1 / 10 ^ 50" 0] by simp

section \<open>Properties of the contact score\<close>

lemma clip32_unit: "clip32 x (F32 0) (F32 1) \<noteq> PInf \<and> clip32 x (F32 0) (F32 1) \<noteq> NInf"
  by (cases x) (auto simp: clip32_def maximum32_def minimum32_def)

lemma score32_not_infinite: "score32 t d \<noteq> PInf \<and> score32 t d \<noteq> NInf"
  using clip32_unit [of "sub32 (F32 1) (div32 (clip32 (if lt32 (round32 t) d then round32 t else d) (F32 0) (round32 t)) (round32 t))"]
  by (auto simp: score32_def Let_def)

lemma clip32_fin: "clip32 (F32 a) (F32 lo) (F32 hi) = F32 (min (max a lo) hi)"
  by (auto simp: clip32_def maximum32_def minimum32_def min_def max_def)

lemma round32_unit:
  assumes "0 \<le> x" and "x \<le> 1"
  shows "\<exists>r. round32 x = F32 r \<and> 0 \<le> r \<and> r \<le> 1"
  using assms round32_one by (rule round32_upper)

text \<open>The closeness before the snap, for a finite distance and a finite nonzero threshold.\<close>

lemma closeness_unit:
  assumes t: "t32 \<noteq> 0"
  shows "\<exists>s. sub32 (F32 1) (div32 (clip32 (if lt32 (F32 t32) (F32 d) then F32 t32 else F32 d) (F32 0) (F32 t32)) (F32 t32))
             = F32 s \<and> 0 \<le> s \<and> s \<le> 1"
proof -
  define v where "v = min (max (if t32 < d then t32 else d) 0) t32"
  have c: "clip32 (if lt32 (F32 t32) (F32 d) then F32 t32 else F32 d) (F32 0) (F32 t32) = F32 v"
    by (simp add: clip32_fin v_def)
  have ratio: "0 \<le> v / t32 \<and> v / t32 \<le> 1"
  proof (cases "0 < t32")
    case True
    then have "0 \<le> v" "v \<le> t32" by (simp_all add: v_def)
    then show ?thesis using True by simp
  next
    case False
    then have "t32 < 0" using t by simp
    then have "v = t32" by (auto simp: v_def min_def max_def)
    then show ?thesis using t by simp
  qed
  obtain q where q: "round32 (v / t32) = F32 q" and q0: "0 \<le> q" and q1: "q \<le> 1"
    using round32_unit [of "v / t32"] ratio by blast
  obtain s where s: "round32 (1 - q) = F32 s" and s0: "0 \<le> s" and s1: "s \<le> 1"
    using round32_unit [of "1 - q"] q0 q1 by auto
  show ?thesis unfolding c using t q s s0 s1 by simp
qed

lemma score_elem_range:
  assumes c: "round32 t = F32 t32" and t: "t32 \<noteq> 0"
  shows "\<exists>s. score_elem t (Fin d) = Fin s \<and> 0 \<le> s \<and> s \<le> 1"
proof -
  obtain s where s: "sub32 (F32 1) (div32 (clip32 (if lt32 (F32 t32) (F32 d) then F32 t32 else F32 d) (F32 0) (F32 t32)) (F32 t32))
             = F32 s" and s0: "0 \<le> s" and s1: "s \<le> 1"
    using closeness_unit [OF t] by blast
  have cl: "clip32 (F32 s) (F32 0) (F32 1) = F32 s" using s0 s1 by (simp add: clip32_fin)
  show ?thesis
    unfolding score_elem_def score32_def Let_def c to32.simps s cl
    using s0 s1 by (cases "lt32 (round32 (1 / 10)) (F32 s)") auto
qed

lemma round32_nonneg:
  assumes "0 < x" and "round32 x = F32 r"
  shows "0 \<le> r"
proof -
  have "of_int 0 \<le> x / ulp32 x" using assms(1) by simp
  then have "0 \<le> round_half_even (x / ulp32 x)" by (rule rhe_ge_int)
  then have "0 \<le> of_int (round_half_even (x / ulp32 x)) * ulp32 x"
    by (intro mult_nonneg_nonneg) simp_all
  then show ?thesis using round32_pos_form(1) [OF assms] by simp
qed

lemma threshold_clip:
  "clip32 (if lt32 (F32 t) (F32 d) then F32 t else F32 d) (F32 0) (F32 t) = F32 (clip d 0 t)"
  by (auto simp: clip32_fin clip_def min_def max_def)

lemma snap_agrees:
  "of32 (if lt32 (F32 c) (clip32 x (F32 0) (F32 1)) then F32 1 else clip32 x (F32 0) (F32 1))
   = (if ngt (of32 (clip32 x (F32 0) (F32 1))) (of32 (F32 c)) then Fin 1
      else of32 (clip32 x (F32 0) (F32 1)))"
  using clip32_unit [of x] by (cases "clip32 x (F32 0) (F32 1)") auto

lemma score_elem_form:
  assumes "round32 t = F32 t32"
  shows "score_elem t (Fin d) = spec_score32 t32 d"
  unfolding score_elem_def score32_def spec_score32_def Let_def assms to32.simps threshold_clip
    round32_tenth
  by (rule snap_agrees)

lemma score_elem_far:
  assumes c: "round32 t = F32 t32" and tp: "0 < t" and nz: "t32 \<noteq> 0"
    and fd: "round32 d = F32 d" and td: "t \<le> d"
  shows "score_elem t (Fin d) = Fin 0"
proof -
  have "0 \<le> t" using tp by simp
  then obtain r where "round32 t = F32 r" and "0 \<le> r" and "r \<le> d"
    using round32_upper [OF _ td fd] by blast
  then have t0: "0 \<le> t32" and t1: "t32 \<le> d" using c by simp_all
  have v: "clip d 0 t32 = t32" using t0 t1 by (simp add: clip_def)
  show ?thesis
    unfolding score_elem_form [OF c] spec_score32_def Let_def v using nz
    by (simp add: round32_one round32_tenth clip32_fin)
qed

lemma score_elem_near:
  assumes c: "round32 t = F32 t32" and tp: "0 < t32" and d: "d \<le> 15099494 / 2 ^ 24 * t32"
  shows "score_elem t (Fin d) = Fin 1"
proof -
  have dt: "d \<le> t32"
  proof -
    have "15099494 / 2 ^ 24 * t32 \<le> 1 * t32" using tp by (intro mult_right_mono) simp_all
    then show ?thesis using d by simp
  qed
  have v: "clip d 0 t32 = max d 0" using dt tp by (simp add: clip_def)
  have x0: "0 \<le> max d 0 / t32" using tp by simp
  have x1: "max d 0 / t32 \<le> 15099494 / 2 ^ 24"
  proof -
    have "max d 0 \<le> 15099494 / 2 ^ 24 * t32" using d tp by simp
    then show ?thesis using tp by (simp add: pos_divide_le_eq)
  qed
  obtain q where q: "round32 (max d 0 / t32) = F32 q" and q0: "0 \<le> q"
    and q1: "q \<le> 15099494 / 2 ^ 24"
    using round32_upper [OF x0 x1 round32_c] by blast
  have y0: "(0::real) < 1677722 / 2 ^ 24" by simp
  have y1: "1677722 / 2 ^ 24 \<le> 1 - q" using q1 by simp
  have y2: "1 - q \<le> 1" using q0 by simp
  obtain s where s: "round32 (1 - q) = F32 s" and s0: "1677722 / 2 ^ 24 \<le> s" and s1: "s \<le> 1"
    using round32_between [OF y0 y1 y2 round32_c1 round32_one] by blast
  have s2: "0 \<le> s" using s0 by simp
  have cut: "(13421773::real) / 2 ^ 27 < s" using s0 by simp
  have cl: "clip32 (F32 s) (F32 0) (F32 1) = F32 s" using s2 s1 by (simp add: clip32_fin)
  have nz: "t32 \<noteq> 0" using tp by simp
  show ?thesis
    unfolding score_elem_form [OF c] spec_score32_def Let_def v
    using nz cut by (simp add: q s cl round32_tenth)
qed

text \<open>
  C2, as the code has it. Take a threshold \<open>t > 0\<close> whose float32 value \<open>t32\<close> is finite and
  not zero, and a float32 distance \<open>d\<close>. The score before the dropout is
  \<open>clip(1 - clip(d, 0, t32)/t32, 0, 1)\<close> with the quotient and the difference rounded to
  float32 and every value strictly above the float32 value of \<open>0.1\<close> replaced by one. A
  distance \<open>d \<ge> t\<close> scores zero, and a distance \<open>d\<close> of at most the float32 value of \<open>0.9\<close>
  times \<open>t32\<close> scores one.
\<close>

theorem score_float32:
  assumes "round32 t = F32 t32" and "0 < t" and "t32 \<noteq> 0" and "round32 d = F32 d"
  shows "score_elem t (Fin d) = spec_score32 t32 d
       \<and> (t \<le> d \<longrightarrow> score_elem t (Fin d) = Fin 0)
       \<and> (d \<le> 15099494 / 2 ^ 24 * t32 \<longrightarrow> score_elem t (Fin d) = Fin 1)"
proof -
  have "0 \<le> t32" using round32_nonneg [OF assms(2) assms(1)] .
  then have tp: "0 < t32" using assms(3) by simp
  show ?thesis
    using score_elem_form [OF assms(1), of d]
      score_elem_far [OF assms(1) assms(2) assms(3) assms(4)]
      score_elem_near [OF assms(1) tp, of d]
    by blast
qed

lemma round32_default_threshold: "round32 (1 / 500) = F32 (8589935 / 2 ^ 32)"
  using round32_eval [of "1 / 500" "- 9" 8589935] by simp

lemma round32_1024th: "round32 (1 / 1024) = F32 (1 / 1024)"
  using round32_eval [of "1 / 1024" "- 10" "2 ^ 23"] by simp

text \<open>The default threshold 0.002 and the distance \<open>2\<^sup>-\<^sup>1\<^sup>0\<close>, a little under half of it.\<close>

theorem score_float32_witness:
  "round32 (1 / 500) = F32 (8589935 / 2 ^ 32)
   \<and> (0::real) < 1 / 500
   \<and> (8589935::real) / 2 ^ 32 \<noteq> 0
   \<and> round32 (1 / 1024) = F32 (1 / 1024)
   \<and> score_elem (1 / 500) (Fin (1 / 1024)) = spec_score32 (8589935 / 2 ^ 32) (1 / 1024)
   \<and> (1::real) / 1024 \<le> 15099494 / 2 ^ 24 * (8589935 / 2 ^ 32)
   \<and> score_elem (1 / 500) (Fin (1 / 1024)) = Fin 1"
proof -
  have h2: "(0::real) < 1 / 500" and h3: "(8589935::real) / 2 ^ 32 \<noteq> 0"
    and n: "(1::real) / 1024 \<le> 15099494 / 2 ^ 24 * (8589935 / 2 ^ 32)" by simp_all
  show ?thesis
    using score_float32 [OF round32_default_threshold h2 h3 round32_1024th]
      round32_default_threshold round32_1024th h2 h3 n
    by blast
qed

lemma round32_above_c: "round32 (15099495 / 2 ^ 24) = F32 (15099495 / 2 ^ 24)"
  using round32_eval [of "15099495 / 2 ^ 24" "- 1" 15099495] by simp

lemma round32_below_tenth: "round32 (1677721 / 2 ^ 24) = F32 (1677721 / 2 ^ 24)"
  using round32_eval [of "1677721 / 2 ^ 24" "- 4" 13421768] by simp

text \<open>
  C2 as the specification states it promises the score one for every \<open>d \<le> 0.9 t\<close>. The
  threshold \<open>1.00000005\<close> is cast to the float32 number one; the float32 distance
  \<open>15099495 / 2\<^sup>2\<^sup>4 = 0.9000000357627869\<close> is below \<open>0.9 t\<close>, its closeness
  \<open>1677721 / 2\<^sup>2\<^sup>4 = 0.0999999642\<close> is below the float32 value of \<open>0.1\<close>, and the score is that
  closeness, not one.
\<close>

theorem score_below_cutoff_counterexample:
  "(0::real) < 100000005 / 100000000
   \<and> round32 (15099495 / 2 ^ 24) = F32 (15099495 / 2 ^ 24)
   \<and> (15099495::real) / 2 ^ 24 \<le> 9 / 10 * (100000005 / 100000000)
   \<and> score_elem (100000005 / 100000000) (Fin (15099495 / 2 ^ 24)) = Fin (1677721 / 2 ^ 24)
   \<and> score_elem (100000005 / 100000000) (Fin (15099495 / 2 ^ 24)) \<noteq> Fin 1"
proof -
  have d: "(1::real) - 15099495 / 2 ^ 24 = 1677721 / 2 ^ 24" by simp
  have v: "clip (15099495 / 2 ^ 24) 0 1 = 15099495 / 2 ^ 24" by (simp add: clip_def)
  have q: "div32 (F32 (15099495 / 2 ^ 24)) (F32 1) = F32 (15099495 / 2 ^ 24)"
    using round32_above_c by simp
  have s: "sub32 (F32 1) (F32 (15099495 / 2 ^ 24)) = F32 (1677721 / 2 ^ 24)"
    using round32_below_tenth by simp
  have cl: "clip32 (F32 (1677721 / 2 ^ 24)) (F32 0) (F32 1) = F32 (1677721 / 2 ^ 24)"
    by (simp add: clip32_fin)
  have sc: "score_elem (100000005 / 100000000) (Fin (15099495 / 2 ^ 24)) = Fin (1677721 / 2 ^ 24)"
    unfolding score_elem_form [OF round32_threshold_example] spec_score32_def Let_def v q s cl
      round32_tenth
    by simp
  show ?thesis using sc round32_above_c by simp
qed


section \<open>Properties of the dropout\<close>

lemma where_one_set: "set (where_one d) = {i. i < length d \<and> d ! i = Fin 1}"
  by (auto simp: where_one_def)

lemma where_one_distinct: "distinct (where_one d)"
  by (simp add: where_one_def)

lemma nsum_ones: "(\<forall>x \<in> set xs. x = Fin 1) \<Longrightarrow> nsum xs = Fin (real (length xs))"
  by (induction xs) auto

lemma assign_zero_length: "length (assign_zero idx d) = length d"
  unfolding assign_zero_def by (induction idx arbitrary: d) auto

lemma assign_zero_nth:
  "i < length d \<Longrightarrow> assign_zero idx d ! i = (if i \<in> set idx then Fin 0 else d ! i)"
  unfolding assign_zero_def
proof (induction idx arbitrary: d)
  case Nil
  then show ?case by simp
next
  case (Cons j js)
  have len: "i < length (d[j := Fin 0])" using Cons.prems by simp
  show ?case
  proof (cases "i = j")
    case True
    then show ?thesis using Cons.IH [OF len] Cons.prems by simp
  next
    case False
    then show ?thesis using Cons.IH [OF len] by simp
  qed
qed

lemma floor_count_bounds:
  fixes u :: real and n :: nat
  assumes "0 \<le> u" "u \<le> 1 / 10"
  shows "0 \<le> \<lfloor>real n * u\<rfloor>" and "nat \<lfloor>real n * u\<rfloor> \<le> n"
proof -
  have nn: "0 \<le> real n * u" using assms by simp
  then show "0 \<le> \<lfloor>real n * u\<rfloor>" by simp
  have "real n * u \<le> real n * 1" using assms by (intro mult_left_mono) auto
  then have "\<lfloor>real n * u\<rfloor> \<le> \<lfloor>real n\<rfloor>" by (intro floor_mono) simp
  then show "nat \<lfloor>real n * u\<rfloor> \<le> n" by simp
qed

lemma dropout_result:
  assumes sh: "mset (shuffle (where_one d)) = mset (where_one d)"
    and u: "0 \<le> u" "u \<le> 1 / 10"
  shows "dropout shuffle u d =
           Inr (assign_zero (take (nat \<lfloor>real (length (where_one d)) * u\<rfloor>) (shuffle (where_one d))) d)"
proof (cases "where_one d = []")
  case True
  then show ?thesis by (simp add: dropout_def assign_zero_def)
next
  case False
  let ?sh = "shuffle (where_one d)"
  have set_sh: "set ?sh = set (where_one d)" using sh by (rule mset_eq_setD)
  have len_sh: "length ?sh = length (where_one d)" using sh by (rule mset_eq_length)
  have "\<forall>x \<in> set (map (\<lambda>i. d ! i) ?sh). x = Fin 1"
    using set_sh by (auto simp: where_one_set)
  then have s: "nsum (map (\<lambda>i. d ! i) ?sh) = Fin (real (length (where_one d)))"
    using nsum_ones [of "map (\<lambda>i. d ! i) ?sh"] len_sh by simp
  have nn: "0 \<le> real (length (where_one d)) * u" using u by simp
  show ?thesis using False s nn
    by (simp add: dropout_def Let_def py_int_def slice_to_def)
qed

text \<open>
  C3. When \<open>shuffle\<close> permutes the index array and \<open>0 \<le> u \<le> 0.1\<close>, the dropout returns
  an array of the same length in which every entry that was not exactly one is unchanged,
  every changed entry was one and is now zero, and the number of entries zeroed is
  \<open>\<lfloor>S u\<rfloor>\<close>, where \<open>S\<close>, the sum of the scores at the entries equal to one, is their number:
  the count depends on the data, not on the array length alone.
\<close>

theorem dropout_zeroes_only_ones:
  assumes sh: "mset (shuffle (where_one d)) = mset (where_one d)"
    and u: "0 \<le> u" "u \<le> 1 / 10"
  shows "\<exists>d'. dropout shuffle u d = Inr d' \<and> length d' = length d
           \<and> (\<forall>i < length d. d ! i \<noteq> Fin 1 \<longrightarrow> d' ! i = d ! i)
           \<and> (\<forall>i < length d. d' ! i \<noteq> d ! i \<longrightarrow> d ! i = Fin 1 \<and> d' ! i = Fin 0)
           \<and> nsum (map (\<lambda>i. d ! i) (where_one d)) = Fin (real (length (where_one d)))
           \<and> int (card {i. i < length d \<and> d ! i = Fin 1 \<and> d' ! i = Fin 0})
               = \<lfloor>real (length (where_one d)) * u\<rfloor>"
proof -
  let ?n = "length (where_one d)"
  let ?k = "nat \<lfloor>real ?n * u\<rfloor>"
  let ?sh = "shuffle (where_one d)"
  let ?d' = "assign_zero (take ?k ?sh) d"
  have res: "dropout shuffle u d = Inr ?d'" using assms by (rule dropout_result)
  have set_sh: "set ?sh = set (where_one d)" using sh by (rule mset_eq_setD)
  have len_sh: "length ?sh = ?n" using sh by (rule mset_eq_length)
  have dist_sh: "distinct ?sh"
    using sh where_one_distinct [of d] by (metis mset_eq_imp_distinct_iff)
  have k_le: "?k \<le> ?n" using u by (rule floor_count_bounds)
  have k_nn: "0 \<le> \<lfloor>real ?n * u\<rfloor>" using u by (rule floor_count_bounds)
  have sub: "set (take ?k ?sh) \<subseteq> {i. i < length d \<and> d ! i = Fin 1}"
    using set_take_subset [of ?k ?sh] set_sh by (simp add: where_one_set)
  have nth: "\<And>i. i < length d \<Longrightarrow> ?d' ! i = (if i \<in> set (take ?k ?sh) then Fin 0 else d ! i)"
    by (rule assign_zero_nth)
  have keep: "\<forall>i < length d. d ! i \<noteq> Fin 1 \<longrightarrow> ?d' ! i = d ! i"
    using nth sub by auto
  have chg: "\<forall>i < length d. ?d' ! i \<noteq> d ! i \<longrightarrow> d ! i = Fin 1 \<and> ?d' ! i = Fin 0"
    using nth sub by auto
  have zeroed: "{i. i < length d \<and> d ! i = Fin 1 \<and> ?d' ! i = Fin 0} = set (take ?k ?sh)"
    using nth sub by (auto split: if_splits)
  have "card (set (take ?k ?sh)) = length (take ?k ?sh)"
    using dist_sh by (intro distinct_card distinct_take)
  also have "\<dots> = ?k" using k_le len_sh by simp
  finally have cnt: "int (card {i. i < length d \<and> d ! i = Fin 1 \<and> ?d' ! i = Fin 0}) = \<lfloor>real ?n * u\<rfloor>"
    using zeroed k_nn by simp
  have "\<forall>x \<in> set (map (\<lambda>i. d ! i) (where_one d)). x = Fin 1"
    by (auto simp: where_one_set)
  then have s: "nsum (map (\<lambda>i. d ! i) (where_one d)) = Fin (real ?n)"
    using nsum_ones [of "map (\<lambda>i. d ! i) (where_one d)"] by simp
  have len: "length ?d' = length d" by (rule assign_zero_length)
  show ?thesis
    by (rule exI [of _ ?d']) (intro conjI res len keep chg s cnt)
qed

theorem dropout_zeroes_only_ones_witness:
  "mset (rev (where_one (replicate 10 (Fin 1) @ [Fin (1 / 20)])))
     = mset (where_one (replicate 10 (Fin 1) @ [Fin (1 / 20)]))
   \<and> (0::real) \<le> 1 / 10 \<and> (1::real) / 10 \<le> 1 / 10
   \<and> (\<exists>d'. dropout rev (1 / 10) (replicate 10 (Fin 1) @ [Fin (1 / 20)]) = Inr d'
         \<and> int (card {i. i < 11 \<and> (replicate 10 (Fin 1) @ [Fin (1 / 20)]) ! i = Fin 1
                           \<and> d' ! i = Fin 0}) = 1)"
proof -
  let ?d = "replicate 10 (Fin 1) @ [Fin (1 / 20)]"
  have h1: "mset (rev (where_one ?d)) = mset (where_one ?d)" by simp
  have h2: "(0::real) \<le> 1 / 10" and h3: "(1::real) / 10 \<le> 1 / 10" by simp_all
  have n: "length (where_one ?d) = 10" by code_simp
  have len: "length ?d = 11" by simp
  obtain d' where r: "dropout rev (1 / 10) ?d = Inr d'"
    and c: "int (card {i. i < length ?d \<and> ?d ! i = Fin 1 \<and> d' ! i = Fin 0})
              = \<lfloor>real (length (where_one ?d)) * (1 / 10)\<rfloor>"
    using dropout_zeroes_only_ones [of rev ?d "1 / 10", OF h1 h2 h3] by blast
  have "\<lfloor>real (length (where_one ?d)) * (1 / 10)\<rfloor> = 1" unfolding n by simp
  then have "int (card {i. i < 11 \<and> ?d ! i = Fin 1 \<and> d' ! i = Fin 0}) = 1"
    using c unfolding len by simp
  then have "\<exists>d'. dropout rev (1 / 10) ?d = Inr d'
         \<and> int (card {i. i < 11 \<and> ?d ! i = Fin 1 \<and> d' ! i = Fin 0}) = 1"
    using r by blast
  then show ?thesis using h1 h2 h3 by (intro conjI)
qed

section \<open>Properties of the pose tracker\<close>

lemma lagrange3:
  fixes p1 p2 p3 c1 c2 c3 :: real
  shows "(p2 * c3 - p3 * c2) * (p2 * c3 - p3 * c2) + (p3 * c1 - p1 * c3) * (p3 * c1 - p1 * c3)
           + (p1 * c2 - p2 * c1) * (p1 * c2 - p2 * c1)
         = (p1 * p1 + p2 * p2 + p3 * p3) * (c1 * c1 + c2 * c2 + c3 * c3)
           - (p1 * c1 + p2 * c2 + p3 * c3) * (p1 * c1 + p2 * c2 + p3 * c3)"
  by (simp add: algebra_simps)

lemma rodrigues_row1:
  fixes k1 k2 k3 d n p1 p2 p3 :: real
  assumes kp: "k1 * p1 + k2 * p2 + k3 * p3 = 0"
  shows "(d + k1 * k1 * (1 - d)) * p1 + (k1 * k2 * (1 - d) - k3 * n) * p2
           + (k1 * k3 * (1 - d) + k2 * n) * p3
         = d * p1 + ((n * k2) * p3 - (n * k3) * p2)"
proof -
  have "(d + k1 * k1 * (1 - d)) * p1 + (k1 * k2 * (1 - d) - k3 * n) * p2
           + (k1 * k3 * (1 - d) + k2 * n) * p3
        = d * p1 + (1 - d) * k1 * (k1 * p1 + k2 * p2 + k3 * p3) + ((n * k2) * p3 - (n * k3) * p2)"
    by (simp add: algebra_simps)
  then show ?thesis using kp by simp
qed

lemma rodrigues_row2:
  fixes k1 k2 k3 d n p1 p2 p3 :: real
  assumes kp: "k1 * p1 + k2 * p2 + k3 * p3 = 0"
  shows "(k2 * k1 * (1 - d) + k3 * n) * p1 + (d + k2 * k2 * (1 - d)) * p2
           + (k2 * k3 * (1 - d) - k1 * n) * p3
         = d * p2 + ((n * k3) * p1 - (n * k1) * p3)"
proof -
  have "(k2 * k1 * (1 - d) + k3 * n) * p1 + (d + k2 * k2 * (1 - d)) * p2
           + (k2 * k3 * (1 - d) - k1 * n) * p3
        = d * p2 + (1 - d) * k2 * (k1 * p1 + k2 * p2 + k3 * p3) + ((n * k3) * p1 - (n * k1) * p3)"
    by (simp add: algebra_simps)
  then show ?thesis using kp by simp
qed

lemma rodrigues_row3:
  fixes k1 k2 k3 d n p1 p2 p3 :: real
  assumes kp: "k1 * p1 + k2 * p2 + k3 * p3 = 0"
  shows "(k3 * k1 * (1 - d) - k2 * n) * p1 + (k3 * k2 * (1 - d) + k1 * n) * p2
           + (d + k3 * k3 * (1 - d)) * p3
         = d * p3 + ((n * k1) * p2 - (n * k2) * p1)"
proof -
  have "(k3 * k1 * (1 - d) - k2 * n) * p1 + (k3 * k2 * (1 - d) + k1 * n) * p2
           + (d + k3 * k3 * (1 - d)) * p3
        = d * p3 + (1 - d) * k3 * (k1 * p1 + k2 * p2 + k3 * p3) + ((n * k1) * p2 - (n * k2) * p1)"
    by (simp add: algebra_simps)
  then show ?thesis using kp by simp
qed

lemma triple_product_expand:
  fixes p1 p2 p3 c1 c2 c3 :: real
  assumes pp: "p1 * p1 + p2 * p2 + p3 * p3 = 1"
  shows "(p1 * c1 + p2 * c2 + p3 * c3) * p1 + ((p3 * c1 - p1 * c3) * p3 - (p1 * c2 - p2 * c1) * p2) = c1"
    and "(p1 * c1 + p2 * c2 + p3 * c3) * p2 + ((p1 * c2 - p2 * c1) * p1 - (p2 * c3 - p3 * c2) * p3) = c2"
    and "(p1 * c1 + p2 * c2 + p3 * c3) * p3 + ((p2 * c3 - p3 * c2) * p2 - (p3 * c1 - p1 * c3) * p1) = c3"
proof -
  have "(p1 * c1 + p2 * c2 + p3 * c3) * p1 + ((p3 * c1 - p1 * c3) * p3 - (p1 * c2 - p2 * c1) * p2)
        = c1 * (p1 * p1 + p2 * p2 + p3 * p3)" by (simp add: algebra_simps)
  then show "(p1 * c1 + p2 * c2 + p3 * c3) * p1 + ((p3 * c1 - p1 * c3) * p3 - (p1 * c2 - p2 * c1) * p2) = c1"
    using pp by simp
  have "(p1 * c1 + p2 * c2 + p3 * c3) * p2 + ((p1 * c2 - p2 * c1) * p1 - (p2 * c3 - p3 * c2) * p3)
        = c2 * (p1 * p1 + p2 * p2 + p3 * p3)" by (simp add: algebra_simps)
  then show "(p1 * c1 + p2 * c2 + p3 * c3) * p2 + ((p1 * c2 - p2 * c1) * p1 - (p2 * c3 - p3 * c2) * p3) = c2"
    using pp by simp
  have "(p1 * c1 + p2 * c2 + p3 * c3) * p3 + ((p2 * c3 - p3 * c2) * p2 - (p3 * c1 - p1 * c3) * p1)
        = c3 * (p1 * p1 + p2 * p2 + p3 * p3)" by (simp add: algebra_simps)
  then show "(p1 * c1 + p2 * c2 + p3 * c3) * p3 + ((p2 * c3 - p3 * c2) * p2 - (p3 * c1 - p1 * c3) * p1) = c3"
    using pp by simp
qed

lemma scaled_norm:
  fixes t a1 a2 a3 n :: real
  assumes t: "0 \<le> t" and n: "n = sqrt (a1 * a1 + a2 * a2 + a3 * a3)" and n0: "n \<noteq> 0"
  shows "sqrt (t * (a1 / n) * (t * (a1 / n)) + t * (a2 / n) * (t * (a2 / n))
               + t * (a3 / n) * (t * (a3 / n))) = t"
proof -
  have nn: "n * n = a1 * a1 + a2 * a2 + a3 * a3"
  proof -
    have "0 \<le> a1 * a1 + a2 * a2 + a3 * a3" by (simp add: add_nonneg_nonneg)
    then show ?thesis unfolding n by simp
  qed
  have "t * (a1 / n) * (t * (a1 / n)) + t * (a2 / n) * (t * (a2 / n)) + t * (a3 / n) * (t * (a3 / n))
        = t * t * ((a1 * a1 + a2 * a2 + a3 * a3) / (n * n))"
    by (simp add: algebra_simps add_divide_distrib)
  also have "\<dots> = t * t"
    unfolding nn [symmetric] using n0 by simp
  finally show ?thesis using t by (simp add: real_sqrt_mult_self)
qed

lemma unit_dot_bounds:
  fixes p1 p2 p3 c1 c2 c3 :: real
  assumes pp: "p1 * p1 + p2 * p2 + p3 * p3 = 1"
    and cc: "c1 * c1 + c2 * c2 + c3 * c3 = 1"
  shows "- 1 \<le> p1 * c1 + p2 * c2 + p3 * c3" and "p1 * c1 + p2 * c2 + p3 * c3 \<le> 1"
proof -
  let ?d = "p1 * c1 + p2 * c2 + p3 * c3"
  have "0 \<le> (p2 * c3 - p3 * c2) * (p2 * c3 - p3 * c2) + (p3 * c1 - p1 * c3) * (p3 * c1 - p1 * c3)
           + (p1 * c2 - p2 * c1) * (p1 * c2 - p2 * c1)"
    by (simp add: add_nonneg_nonneg)
  then have "?d * ?d \<le> 1" unfolding lagrange3 pp cc by simp
  then have "?d\<^sup>2 \<le> 1" by (simp add: power2_eq_square)
  then have "\<bar>?d\<bar> \<le> 1" by (simp add: abs_square_le_1)
  then show "- 1 \<le> ?d" and "?d \<le> 1" by simp_all
qed

lemma from_rotvec_axis_angle:
  assumes "sqrt (x * x + y * y + z * z) = t" and "t \<noteq> 0"
  shows "from_rotvec (Fin x, Fin y, Fin z) =
     ((Fin (cos t + x / t * (x / t) * (1 - cos t)), Fin (x / t * (y / t) * (1 - cos t) - z / t * sin t),
       Fin (x / t * (z / t) * (1 - cos t) + y / t * sin t)),
      (Fin (y / t * (x / t) * (1 - cos t) + z / t * sin t), Fin (cos t + y / t * (y / t) * (1 - cos t)),
       Fin (y / t * (z / t) * (1 - cos t) - x / t * sin t)),
      (Fin (z / t * (x / t) * (1 - cos t) - y / t * sin t), Fin (z / t * (y / t) * (1 - cos t) + x / t * sin t),
       Fin (cos t + z / t * (z / t) * (1 - cos t))))"
  using assms by (simp add: Let_def)

lemma rodrigues_aligns:
  fixes p1 p2 p3 c1 c2 c3 :: real
  assumes pp: "p1 * p1 + p2 * p2 + p3 * p3 = 1"
    and cc: "c1 * c1 + c2 * c2 + c3 * c3 = 1"
    and n0: "vnorm (vcross (Fin p1, Fin p2, Fin p3) (Fin c1, Fin c2, Fin c3)) \<noteq> Fin 0"
  shows "mat_vec
           (from_rotvec
              (vscale (narccos (vdot (Fin p1, Fin p2, Fin p3) (Fin c1, Fin c2, Fin c3)))
                 (vdiv (vcross (Fin p1, Fin p2, Fin p3) (Fin c1, Fin c2, Fin c3))
                    (vnorm (vcross (Fin p1, Fin p2, Fin p3) (Fin c1, Fin c2, Fin c3))))))
           (Fin p1, Fin p2, Fin p3)
         = (Fin c1, Fin c2, Fin c3)"
proof -
  define a1 where "a1 = p2 * c3 - p3 * c2"
  define a2 where "a2 = p3 * c1 - p1 * c3"
  define a3 where "a3 = p1 * c2 - p2 * c1"
  define n where "n = sqrt (a1 * a1 + a2 * a2 + a3 * a3)"
  define d where "d = p1 * c1 + p2 * c2 + p3 * c3"
  define t where "t = arccos d"
  have sq_nn: "0 \<le> a1 * a1 + a2 * a2 + a3 * a3" by (simp add: add_nonneg_nonneg)
  have cross: "vcross (Fin p1, Fin p2, Fin p3) (Fin c1, Fin c2, Fin c3) = (Fin a1, Fin a2, Fin a3)"
    by (simp add: a1_def a2_def a3_def)
  have norm: "vnorm (Fin a1, Fin a2, Fin a3) = Fin n"
    using sq_nn by (simp add: vnorm_def n_def not_less)
  have dot: "vdot (Fin p1, Fin p2, Fin p3) (Fin c1, Fin c2, Fin c3) = Fin d"
    by (simp add: d_def)
  have nz: "n \<noteq> 0" using n0 cross norm by simp
  have npos: "0 < n" using nz sq_nn unfolding n_def by (simp add: less_le)
  have nn: "n * n = a1 * a1 + a2 * a2 + a3 * a3" using sq_nn unfolding n_def by simp
  have lag: "n * n = 1 - d * d"
    unfolding nn a1_def a2_def a3_def d_def using lagrange3 [of p2 c3 p3 c2 c1 p1] pp cc by simp
  have "0 < n * n" using npos by simp
  then have dd: "d\<^sup>2 < 1" using lag by (simp add: power2_eq_square)
  then have "\<bar>d\<bar> < 1" by (simp add: abs_square_less_1)
  then have db: "- 1 < d" "d < 1" by simp_all
  have tb: "0 < t" "t < pi" using arccos_lt_bounded [OF db] by (simp_all add: t_def)
  have cost: "cos t = d" using db by (simp add: t_def)
  have sint: "sin t = n"
  proof -
    have "sin t = sqrt (1 - d\<^sup>2)" unfolding t_def using db by (intro sin_arccos) auto
    also have "\<dots> = sqrt (n * n)" using lag by (simp add: power2_eq_square)
    also have "\<dots> = n" using npos by simp
    finally show ?thesis .
  qed
  have acos: "narccos (Fin d) = Fin t" using db by (simp add: t_def)
  have angle: "sqrt (t * (a1 / n) * (t * (a1 / n)) + t * (a2 / n) * (t * (a2 / n))
                     + t * (a3 / n) * (t * (a3 / n))) = t"
    using tb(1) nz by (intro scaled_norm) (simp_all add: n_def)
  have tz: "t \<noteq> 0" using tb by simp
  define k1 where "k1 = a1 / n"
  define k2 where "k2 = a2 / n"
  define k3 where "k3 = a3 / n"
  have nk: "n * k1 = a1" "n * k2 = a2" "n * k3 = a3" using nz by (simp_all add: k1_def k2_def k3_def)
  have ap: "a1 * p1 + a2 * p2 + a3 * p3 = 0" by (simp add: a1_def a2_def a3_def algebra_simps)
  have kp: "k1 * p1 + k2 * p2 + k3 * p3 = 0"
  proof -
    have "k1 * p1 + k2 * p2 + k3 * p3 = (a1 * p1 + a2 * p2 + a3 * p3) / n"
      by (simp add: k1_def k2_def k3_def add_divide_distrib)
    then show ?thesis using ap by simp
  qed
  have quot: "t * (a1 / n) / t = k1" "t * (a2 / n) / t = k2" "t * (a3 / n) / t = k3"
    using tz by (simp_all add: k1_def k2_def k3_def)
  have rot: "from_rotvec (Fin (t * (a1 / n)), Fin (t * (a2 / n)), Fin (t * (a3 / n)))
             = ((Fin (d + k1 * k1 * (1 - d)), Fin (k1 * k2 * (1 - d) - k3 * n), Fin (k1 * k3 * (1 - d) + k2 * n)),
                (Fin (k2 * k1 * (1 - d) + k3 * n), Fin (d + k2 * k2 * (1 - d)), Fin (k2 * k3 * (1 - d) - k1 * n)),
                (Fin (k3 * k1 * (1 - d) - k2 * n), Fin (k3 * k2 * (1 - d) + k1 * n), Fin (d + k3 * k3 * (1 - d))))"
    unfolding from_rotvec_axis_angle [OF angle tz] quot cost sint ..
  have r1: "(d + k1 * k1 * (1 - d)) * p1 + (k1 * k2 * (1 - d) - k3 * n) * p2
              + (k1 * k3 * (1 - d) + k2 * n) * p3 = c1"
    unfolding rodrigues_row1 [OF kp] nk
    using triple_product_expand(1) [OF pp, of c1 c2 c3] by (simp add: d_def a2_def a3_def)
  have r2: "(k2 * k1 * (1 - d) + k3 * n) * p1 + (d + k2 * k2 * (1 - d)) * p2
              + (k2 * k3 * (1 - d) - k1 * n) * p3 = c2"
    unfolding rodrigues_row2 [OF kp] nk
    using triple_product_expand(2) [OF pp, of c1 c2 c3] by (simp add: d_def a1_def a3_def)
  have r3: "(k3 * k1 * (1 - d) - k2 * n) * p1 + (k3 * k2 * (1 - d) + k1 * n) * p2
              + (d + k3 * k3 * (1 - d)) * p3 = c3"
    unfolding rodrigues_row3 [OF kp] nk
    using triple_product_expand(3) [OF pp, of c1 c2 c3] by (simp add: d_def a1_def a2_def)
  have arg: "vscale (Fin t) (vdiv (Fin a1, Fin a2, Fin a3) (Fin n))
             = (Fin (t * (a1 / n)), Fin (t * (a2 / n)), Fin (t * (a3 / n)))"
    using nz by simp
  show ?thesis
    unfolding cross norm dot acos arg rot
    by (simp only: mat_vec.simps vdot.simps nmul.simps nadd.simps r1 r2 r3)
qed

lemma rot_block_make_pose [simp]: "rot_block (make_pose m v) = m"
  by (cases m rule: prod_cases3; cases v rule: prod_cases3) (auto split: prod.splits)

lemma pos_col_make_pose [simp]: "pos_col (make_pose m v) = v"
  by (cases m rule: prod_cases3; cases v rule: prod_cases3) (auto split: prod.splits)

lemma bottom_row_make_pose [simp]: "bottom_row (make_pose m v) = (Fin 0, Fin 0, Fin 0, Fin 1)"
  by (cases m rule: prod_cases3; cases v rule: prod_cases3) (auto split: prod.splits)

lemma pos_col_set_z_col [simp]: "pos_col (set_z_col m v) = pos_col m"
  by (cases "(m, v)" rule: set_z_col.cases) simp

lemma z_col_matmul3: "z_col (matmul3 a b) = mat_vec a (z_col b)"
  by (cases a rule: prod_cases3) simp

lemma estimate_pose_fst:
  "fst (estimate_pose c (Some p)) =
     make_pose
       (matmul3
          (if \<not> np_isclose (vdot (prev_z_of p) (curr_z_of c)) (Fin 1)
           then from_rotvec
                  (vscale (narccos (vdot (prev_z_of p) (curr_z_of c)))
                     (vdiv (vcross (prev_z_of p) (curr_z_of c))
                        (vnorm (vcross (prev_z_of p) (curr_z_of c)))))
           else eye3)
          (rot_block p))
       (pos_col c)"
  by (simp add: estimate_pose_def Let_def prev_z_of_def curr_z_of_def)

lemma estimate_pose_row_fst:
  "fst (estimate_pose_row c p) =
     make_pose
       (matmul3
          (if np_isclose (vdot (prev_z_of p) (curr_z_of c)) (Fin 1) then eye3
           else from_rotvec
                  (vscale (narccos (np_clip (vdot (prev_z_of p) (curr_z_of c)) (Fin (- 1)) (Fin 1)))
                     (if ngt (vnorm (vcross (prev_z_of p) (curr_z_of c))) (Fin 0)
                      then vdiv (vcross (prev_z_of p) (curr_z_of c))
                             (vnorm (vcross (prev_z_of p) (curr_z_of c)))
                      else zeros3)))
          (rot_block p))
       (pos_col c)"
  by (simp add: estimate_pose_row_def Let_def prev_z_of_def curr_z_of_def)

lemma estimate_pose_snd:
  "snd (estimate_pose c prev) = set_z_col c (curr_z_of c)"
  by (simp add: estimate_pose_def Let_def curr_z_of_def)

lemma estimate_pose_row_snd:
  "snd (estimate_pose_row c p) = set_z_col c (curr_z_of c)"
  by (simp add: estimate_pose_row_def Let_def curr_z_of_def)

lemma estimate_pose_batch_nth:
  assumes "length cs = length ps"
  shows "\<exists>outs cs'. estimate_pose_batch cs ps = Inr (outs, cs')
           \<and> length outs = length cs \<and> length cs' = length cs
           \<and> (\<forall>i < length cs. outs ! i = fst (estimate_pose_row (cs ! i) (ps ! i))
                                \<and> cs' ! i = snd (estimate_pose_row (cs ! i) (ps ! i)))"
proof -
  have "(if length ps = 1 then replicate (length cs) (hd ps) else ps) = ps"
    using assms by (cases ps) auto
  then show ?thesis using assms by (simp add: estimate_pose_batch_def Let_def)
qed

lemma z_col_fin_pose: "\<exists>a b c. z_col (rot_block (fin_pose P)) = (Fin a, Fin b, Fin c)"
proof -
  obtain r0 r1 r2 r3 where P: "P = (r0, r1, r2, r3)" by (cases P)
  show ?thesis
    by (cases r0; cases r1; cases r2; cases r3) (simp add: P)
qed

lemma vnorm_fin: "vnorm (Fin a, Fin b, Fin c) = Fin (sqrt (a * a + b * b + c * c))"
proof -
  have "0 \<le> a * a + b * b + c * c" by (simp add: add_nonneg_nonneg)
  then show ?thesis by (simp add: vnorm_def not_less)
qed

lemma quotient_squares:
  fixes a b c m :: real
  assumes "m * m = a * a + b * b + c * c" and "m \<noteq> 0"
  shows "a / m * (a / m) + b / m * (b / m) + c / m * (c / m) = 1"
proof -
  have "a / m * (a / m) + b / m * (b / m) + c / m * (c / m) = (a * a + b * b + c * c) / (m * m)"
    by (simp add: add_divide_distrib)
  also have "\<dots> = 1" unfolding assms(1) [symmetric] using assms(2) by simp
  finally show ?thesis .
qed

lemma normalized_unit:
  fixes a b c :: real
  assumes "sqrt (a * a + b * b + c * c) \<noteq> 0"
  shows "a / sqrt (a * a + b * b + c * c) * (a / sqrt (a * a + b * b + c * c))
         + b / sqrt (a * a + b * b + c * c) * (b / sqrt (a * a + b * b + c * c))
         + c / sqrt (a * a + b * b + c * c) * (c / sqrt (a * a + b * b + c * c)) = 1"
proof -
  have nn: "0 \<le> a * a + b * b + c * c" by (simp add: add_nonneg_nonneg)
  have mm: "sqrt (a * a + b * b + c * c) * sqrt (a * a + b * b + c * c) = a * a + b * b + c * c"
    using nn by simp
  show ?thesis using mm assms by (rule quotient_squares)
qed

lemma tilt_rotation_unit:
  fixes p1 p2 p3 c1 c2 c3 :: real
  assumes pp: "p1 * p1 + p2 * p2 + p3 * p3 = 1"
    and cc: "c1 * c1 + c2 * c2 + c3 * c3 = 1"
  shows "tilt_rotation (Fin p1, Fin p2, Fin p3) (Fin c1, Fin c2, Fin c3)
         = from_rotvec
              (vscale (narccos (vdot (Fin p1, Fin p2, Fin p3) (Fin c1, Fin c2, Fin c3)))
                 (vdiv (vcross (Fin p1, Fin p2, Fin p3) (Fin c1, Fin c2, Fin c3))
                    (vnorm (vcross (Fin p1, Fin p2, Fin p3) (Fin c1, Fin c2, Fin c3)))))"
proof -
  have "np_clip (vdot (Fin p1, Fin p2, Fin p3) (Fin c1, Fin c2, Fin c3)) (Fin (- 1)) (Fin 1)
        = vdot (Fin p1, Fin p2, Fin p3) (Fin c1, Fin c2, Fin c3)"
    using unit_dot_bounds [OF pp cc] by (simp add: np_clip_def)
  then show ?thesis by (simp only: tilt_rotation_def)
qed

text \<open>
  C5, as the code has it. Take finite poses, the previous Z axis of unit length, the current
  Z column not zero, the cosine of the two Z directions not within the \<^verbatim>\<open>isclose\<close>
  tolerance of one, and the two directions not anti-parallel (their cross product is not
  zero). Then the pose returned by \<open>estimate_pose\<close>, and row \<open>i\<close> of the batch returned by
  \<open>estimate_pose_batch\<close>, has the rotation block \<open>delta @ prev_rot\<close>, where \<open>delta\<close> is the
  axis-angle rotation about \<open>normalize(cross(prev_z, curr_z))\<close> by \<open>arccos(dot(prev_z, curr_z))\<close>
  and carries the previous Z axis onto the current one; its translation is the current
  position and its bottom row is \<open>[0, 0, 0, 1]\<close>. Of the current rotation only the
  normalised Z column enters.
\<close>

theorem tracked_pose_is_tilt_of_previous:
  assumes pu: "vnorm (prev_z_of (fin_pose P)) = Fin 1"
    and cn: "vnorm (z_col (rot_block (fin_pose C))) \<noteq> Fin 0"
    and far: "\<not> np_isclose (vdot (prev_z_of (fin_pose P)) (curr_z_of (fin_pose C))) (Fin 1)"
    and np: "vnorm (vcross (prev_z_of (fin_pose P)) (curr_z_of (fin_pose C))) \<noteq> Fin 0"
    and len: "length cs = length ps" and i: "i < length cs"
    and ci: "cs ! i = fin_pose C" and pi: "ps ! i = fin_pose P"
  shows "rot_block (fst (estimate_pose (fin_pose C) (Some (fin_pose P))))
           = matmul3 (tilt_rotation (prev_z_of (fin_pose P)) (curr_z_of (fin_pose C)))
               (rot_block (fin_pose P))
       \<and> mat_vec (tilt_rotation (prev_z_of (fin_pose P)) (curr_z_of (fin_pose C)))
            (prev_z_of (fin_pose P)) = curr_z_of (fin_pose C)
       \<and> pos_col (fst (estimate_pose (fin_pose C) (Some (fin_pose P)))) = pos_col (fin_pose C)
       \<and> bottom_row (fst (estimate_pose (fin_pose C) (Some (fin_pose P))))
           = (Fin 0, Fin 0, Fin 0, Fin 1)
       \<and> (\<exists>outs cs'. estimate_pose_batch cs ps = Inr (outs, cs')
             \<and> outs ! i = fst (estimate_pose (fin_pose C) (Some (fin_pose P))))"
proof -
  obtain p1 p2 p3 where pz: "prev_z_of (fin_pose P) = (Fin p1, Fin p2, Fin p3)"
    using z_col_fin_pose [of P] unfolding prev_z_of_def by blast
  obtain z1 z2 z3 where z0: "z_col (rot_block (fin_pose C)) = (Fin z1, Fin z2, Fin z3)"
    using z_col_fin_pose [of C] by blast
  define m where "m = sqrt (z1 * z1 + z2 * z2 + z3 * z3)"
  have m0: "m \<noteq> 0" using cn unfolding z0 vnorm_fin m_def by simp
  have cz: "curr_z_of (fin_pose C) = (Fin (z1 / m), Fin (z2 / m), Fin (z3 / m))"
    unfolding curr_z_of_def z0 vnorm_fin using m0 by (simp add: m_def)
  have pp: "p1 * p1 + p2 * p2 + p3 * p3 = 1"
    using pu unfolding pz vnorm_fin by simp
  have cc: "z1 / m * (z1 / m) + z2 / m * (z2 / m) + z3 / m * (z3 / m) = 1"
    unfolding m_def using m0 [unfolded m_def] by (rule normalized_unit)
  have tilt: "tilt_rotation (prev_z_of (fin_pose P)) (curr_z_of (fin_pose C))
              = from_rotvec
                  (vscale (narccos (vdot (prev_z_of (fin_pose P)) (curr_z_of (fin_pose C))))
                     (vdiv (vcross (prev_z_of (fin_pose P)) (curr_z_of (fin_pose C)))
                        (vnorm (vcross (prev_z_of (fin_pose P)) (curr_z_of (fin_pose C))))))"
    unfolding pz cz by (rule tilt_rotation_unit [OF pp cc])
  have single: "fst (estimate_pose (fin_pose C) (Some (fin_pose P)))
                = make_pose (matmul3 (tilt_rotation (prev_z_of (fin_pose P)) (curr_z_of (fin_pose C)))
                               (rot_block (fin_pose P))) (pos_col (fin_pose C))"
    unfolding estimate_pose_fst tilt using far by simp
  have pos: "ngt (vnorm (vcross (prev_z_of (fin_pose P)) (curr_z_of (fin_pose C)))) (Fin 0)"
  proof -
    obtain a1 a2 a3 where cr: "vcross (prev_z_of (fin_pose P)) (curr_z_of (fin_pose C))
                                = (Fin a1, Fin a2, Fin a3)"
      unfolding pz cz by simp
    show ?thesis using np unfolding cr vnorm_fin by (simp add: less_le)
  qed
  have clip: "np_clip (vdot (prev_z_of (fin_pose P)) (curr_z_of (fin_pose C))) (Fin (- 1)) (Fin 1)
        = vdot (prev_z_of (fin_pose P)) (curr_z_of (fin_pose C))"
    unfolding pz cz using unit_dot_bounds [OF pp cc] by (simp add: np_clip_def)
  have row: "fst (estimate_pose_row (fin_pose C) (fin_pose P))
             = fst (estimate_pose (fin_pose C) (Some (fin_pose P)))"
    unfolding estimate_pose_row_fst estimate_pose_fst clip using far pos by simp
  have align: "mat_vec (tilt_rotation (prev_z_of (fin_pose P)) (curr_z_of (fin_pose C)))
                 (prev_z_of (fin_pose P)) = curr_z_of (fin_pose C)"
    unfolding tilt unfolding pz cz
    by (rule rodrigues_aligns [OF pp cc np [unfolded pz cz]])
  obtain outs cs' where b: "estimate_pose_batch cs ps = Inr (outs, cs')"
    and bn: "\<forall>i < length cs. outs ! i = fst (estimate_pose_row (cs ! i) (ps ! i))
                                \<and> cs' ! i = snd (estimate_pose_row (cs ! i) (ps ! i))"
    using estimate_pose_batch_nth [OF len] by blast
  have "outs ! i = fst (estimate_pose (fin_pose C) (Some (fin_pose P)))"
    using bn i ci pi row by simp
  then have batch: "\<exists>outs cs'. estimate_pose_batch cs ps = Inr (outs, cs')
             \<and> outs ! i = fst (estimate_pose (fin_pose C) (Some (fin_pose P)))"
    using b by blast
  show ?thesis
    using align batch by (simp add: single)
qed

lemma tilt_rotation_aligns:
  fixes p1 p2 p3 c1 c2 c3 :: real
  assumes pp: "p1 * p1 + p2 * p2 + p3 * p3 = 1"
    and cc: "c1 * c1 + c2 * c2 + c3 * c3 = 1"
    and n0: "vnorm (vcross (Fin p1, Fin p2, Fin p3) (Fin c1, Fin c2, Fin c3)) \<noteq> Fin 0"
  shows "mat_vec (tilt_rotation (Fin p1, Fin p2, Fin p3) (Fin c1, Fin c2, Fin c3))
           (Fin p1, Fin p2, Fin p3) = (Fin c1, Fin c2, Fin c3)"
  unfolding tilt_rotation_unit [OF pp cc] by (rule rodrigues_aligns [OF pp cc n0])

text \<open>The hypotheses of C5 hold for the identity as previous pose and a tilt about Y.\<close>

theorem tracked_pose_is_tilt_of_previous_witness:
  "vnorm (prev_z_of (fin_pose pose_identity)) = Fin 1
   \<and> vnorm (z_col (rot_block (fin_pose pose_tilted))) \<noteq> Fin 0
   \<and> \<not> np_isclose (vdot (prev_z_of (fin_pose pose_identity)) (curr_z_of (fin_pose pose_tilted))) (Fin 1)
   \<and> vnorm (vcross (prev_z_of (fin_pose pose_identity)) (curr_z_of (fin_pose pose_tilted))) \<noteq> Fin 0
   \<and> rot_block (fst (estimate_pose (fin_pose pose_tilted) (Some (fin_pose pose_identity))))
       = matmul3 (tilt_rotation (prev_z_of (fin_pose pose_identity)) (curr_z_of (fin_pose pose_tilted)))
           (rot_block (fin_pose pose_identity))
   \<and> mat_vec (tilt_rotation (prev_z_of (fin_pose pose_identity)) (curr_z_of (fin_pose pose_tilted)))
        (prev_z_of (fin_pose pose_identity)) = (Fin (3 / 5), Fin 0, Fin (4 / 5))
   \<and> pos_col (fst (estimate_pose (fin_pose pose_tilted) (Some (fin_pose pose_identity))))
       = (Fin 1, Fin 2, Fin 3)
   \<and> (\<exists>outs cs'. estimate_pose_batch [fin_pose pose_tilted] [fin_pose pose_identity] = Inr (outs, cs')
         \<and> outs ! 0 = fst (estimate_pose (fin_pose pose_tilted) (Some (fin_pose pose_identity))))"
proof -
  have cz: "curr_z_of (fin_pose pose_tilted) = (Fin (3 / 5), Fin 0, Fin (4 / 5))"
    by (simp add: curr_z_of_def pose_tilted_def vnorm_def)
  have pz: "prev_z_of (fin_pose pose_identity) = (Fin 0, Fin 0, Fin 1)"
    by (simp add: prev_z_of_def pose_identity_def)
  have h1: "vnorm (prev_z_of (fin_pose pose_identity)) = Fin 1"
    unfolding pz by (simp add: vnorm_def)
  have h2: "vnorm (z_col (rot_block (fin_pose pose_tilted))) \<noteq> Fin 0"
    by (simp add: pose_tilted_def vnorm_def)
  have h3: "\<not> np_isclose (vdot (prev_z_of (fin_pose pose_identity)) (curr_z_of (fin_pose pose_tilted))) (Fin 1)"
    unfolding pz cz by simp
  have h4: "vnorm (vcross (prev_z_of (fin_pose pose_identity)) (curr_z_of (fin_pose pose_tilted))) \<noteq> Fin 0"
    unfolding pz cz by (simp add: vnorm_def)
  have h5: "length [fin_pose pose_tilted] = length [fin_pose pose_identity]" by simp
  have h6: "0 < length [fin_pose pose_tilted]" by simp
  have pc: "pos_col (fin_pose pose_tilted) = (Fin 1, Fin 2, Fin 3)"
    by (simp add: pose_tilted_def)
  have h7: "[fin_pose pose_tilted] ! 0 = fin_pose pose_tilted"
    and h8: "[fin_pose pose_identity] ! 0 = fin_pose pose_identity" by simp_all
  show ?thesis
    using tracked_pose_is_tilt_of_previous [OF h1 h2 h3 h4 h5 h6 h7 h8] h1 h2 h3 h4
    unfolding cz pc by simp
qed

lemma matmul3_eye3_fin [simp]: "matmul3 eye3 (rot_block (fin_pose P)) = rot_block (fin_pose P)"
proof -
  obtain r0 r1 r2 r3 where P: "P = (r0, r1, r2, r3)" by (cases P)
  show ?thesis
    by (cases r0; cases r1; cases r2; cases r3) (simp add: P eye3_def)
qed

text \<open>
  C5 as the specification states it asks only that the Z axes are not parallel. For a tilt
  of about a ninth of a degree the cross product is not zero, yet the cosine is within the
  tolerance of one: the delta is the identity, the rotation block is the previous one, and
  it is not the aligning rotation times the previous rotation.
\<close>

theorem near_parallel_counterexample:
  "vnorm (vcross (prev_z_of (fin_pose pose_identity)) (curr_z_of (fin_pose pose_near))) \<noteq> Fin 0
   \<and> rot_block (fst (estimate_pose (fin_pose pose_near) (Some (fin_pose pose_identity))))
       = rot_block (fin_pose pose_identity)
   \<and> rot_block (fst (estimate_pose (fin_pose pose_near) (Some (fin_pose pose_identity))))
       \<noteq> matmul3 (tilt_rotation (prev_z_of (fin_pose pose_identity)) (curr_z_of (fin_pose pose_near)))
            (rot_block (fin_pose pose_identity))"
proof -
  have cz: "curr_z_of (fin_pose pose_near) = (Fin (2000 / 1000001), Fin 0, Fin (999999 / 1000001))"
    by (simp add: curr_z_of_def pose_near_def vnorm_def)
  have pz: "prev_z_of (fin_pose pose_identity) = (Fin 0, Fin 0, Fin 1)"
    by (simp add: prev_z_of_def pose_identity_def)
  have n0: "vnorm (vcross (Fin 0, Fin 0, Fin 1) (Fin (2000 / 1000001), Fin 0, Fin (999999 / 1000001)))
            \<noteq> Fin 0"
    by (simp add: vnorm_def)
  have close: "np_isclose (vdot (prev_z_of (fin_pose pose_identity)) (curr_z_of (fin_pose pose_near))) (Fin 1)"
    unfolding pz cz by simp
  have out: "rot_block (fst (estimate_pose (fin_pose pose_near) (Some (fin_pose pose_identity))))
             = rot_block (fin_pose pose_identity)"
    unfolding estimate_pose_fst using close by simp
  have al: "mat_vec (tilt_rotation (Fin 0, Fin 0, Fin 1) (Fin (2000 / 1000001), Fin 0, Fin (999999 / 1000001)))
              (Fin 0, Fin 0, Fin 1) = (Fin (2000 / 1000001), Fin 0, Fin (999999 / 1000001))"
    by (rule tilt_rotation_aligns [OF _ _ n0]) simp_all
  have zc: "z_col (rot_block (fin_pose pose_identity)) = (Fin 0, Fin 0, Fin 1)"
    by (simp add: pose_identity_def)
  have "z_col (matmul3 (tilt_rotation (prev_z_of (fin_pose pose_identity)) (curr_z_of (fin_pose pose_near)))
            (rot_block (fin_pose pose_identity)))
        = (Fin (2000 / 1000001), Fin 0, Fin (999999 / 1000001))"
    unfolding z_col_matmul3 zc pz cz by (rule al)
  then have ne: "rot_block (fin_pose pose_identity)
       \<noteq> matmul3 (tilt_rotation (prev_z_of (fin_pose pose_identity)) (curr_z_of (fin_pose pose_near)))
            (rot_block (fin_pose pose_identity))"
    using zc by auto
  show ?thesis unfolding out pz cz using n0 ne [unfolded pz cz] by simp
qed

text \<open>
  C6. For every finite current pose, every previous pose (or none) and every angle \<open>\<theta>\<close>,
  \<open>estimate_pose\<close> returns the same tracked pose for the current pose rotated about its own
  Z axis by \<open>\<theta>\<close> as for the current pose itself.
\<close>

theorem estimate_pose_spin_invariant:
  "fst (estimate_pose (rotate_local_z (fin_pose C) \<theta>) prev) = fst (estimate_pose (fin_pose C) prev)"
proof -
  obtain r0 r1 r2 r3 where C: "C = (r0, r1, r2, r3)" by (cases C)
  obtain a00 a01 a02 a03 where r0: "r0 = (a00, a01, a02, a03)" by (cases r0)
  obtain a10 a11 a12 a13 where r1: "r1 = (a10, a11, a12, a13)" by (cases r1)
  obtain a20 a21 a22 a23 where r2: "r2 = (a20, a21, a22, a23)" by (cases r2)
  obtain a30 a31 a32 a33 where r3: "r3 = (a30, a31, a32, a33)" by (cases r3)
  have z: "z_col (rot_block (rotate_local_z (fin_pose C) \<theta>)) = z_col (rot_block (fin_pose C))"
    by (simp add: C r0 r1 r2 r3 rotate_local_z_def rot_z_def)
  have p: "pos_col (rotate_local_z (fin_pose C) \<theta>) = pos_col (fin_pose C)"
    by (simp add: C r0 r1 r2 r3 rotate_local_z_def rot_z_def)
  show ?thesis
    by (simp add: estimate_pose_def Let_def z p)
qed

lemma z_col_set_z_col [simp]: "z_col (rot_block (set_z_col m v)) = v"
  by (cases "(m, v)" rule: set_z_col.cases) simp

lemma normalise_changes:
  fixes a b c :: real
  assumes "vnorm (Fin a, Fin b, Fin c) \<noteq> Fin 1"
  shows "vdiv (Fin a, Fin b, Fin c) (vnorm (Fin a, Fin b, Fin c)) \<noteq> (Fin a, Fin b, Fin c)"
proof
  let ?n = "sqrt (a * a + b * b + c * c)"
  assume eq: "vdiv (Fin a, Fin b, Fin c) (vnorm (Fin a, Fin b, Fin c)) = (Fin a, Fin b, Fin c)"
  have n1: "?n \<noteq> 1" using assms unfolding vnorm_fin by simp
  have n0: "?n \<noteq> 0" using eq unfolding vnorm_fin by (auto split: if_splits)
  have q: "a / ?n = a" "b / ?n = b" "c / ?n = c" using eq n0 unfolding vnorm_fin by simp_all
  have fixed: "x = 0" if "x / ?n = x" for x :: real
  proof -
    have "x = x * ?n" using that n0 by (simp add: field_simps)
    then have "x * (1 - ?n) = 0" by (simp add: algebra_simps)
    then show ?thesis using n1 by simp
  qed
  have "a = 0" "b = 0" "c = 0" using q by (simp_all add: fixed)
  then have "?n = 0" by simp
  then show False using n0 by simp
qed

text \<open>
  C10. \<open>estimate_pose\<close> and \<open>estimate_pose_batch\<close> leave the caller's current pose with
  its third rotation column divided by its norm; whenever that column of a finite pose is
  not of unit length, the array after the call differs from the array before it.
\<close>

theorem curr_pose_normalised_in_place:
  assumes nu: "vnorm (z_col (rot_block (fin_pose C))) \<noteq> Fin 1"
    and len: "length cs = length ps" and i: "i < length cs" and ci: "cs ! i = fin_pose C"
  shows "snd (estimate_pose (fin_pose C) prev) = set_z_col (fin_pose C) (curr_z_of (fin_pose C))
       \<and> snd (estimate_pose (fin_pose C) prev) \<noteq> fin_pose C
       \<and> (\<exists>outs cs'. estimate_pose_batch cs ps = Inr (outs, cs')
             \<and> cs' ! i = set_z_col (fin_pose C) (curr_z_of (fin_pose C))
             \<and> cs' ! i \<noteq> fin_pose C)"
proof -
  obtain a b c where z0: "z_col (rot_block (fin_pose C)) = (Fin a, Fin b, Fin c)"
    using z_col_fin_pose [of C] by blast
  have ne: "curr_z_of (fin_pose C) \<noteq> z_col (rot_block (fin_pose C))"
    unfolding curr_z_of_def z0 using nu [unfolded z0] by (rule normalise_changes)
  have chg: "set_z_col (fin_pose C) (curr_z_of (fin_pose C)) \<noteq> fin_pose C"
  proof
    assume "set_z_col (fin_pose C) (curr_z_of (fin_pose C)) = fin_pose C"
    then have "z_col (rot_block (set_z_col (fin_pose C) (curr_z_of (fin_pose C))))
               = z_col (rot_block (fin_pose C))" by simp
    then show False using ne by simp
  qed
  obtain outs cs' where b: "estimate_pose_batch cs ps = Inr (outs, cs')"
    and bn: "\<forall>i < length cs. outs ! i = fst (estimate_pose_row (cs ! i) (ps ! i))
                                \<and> cs' ! i = snd (estimate_pose_row (cs ! i) (ps ! i))"
    using estimate_pose_batch_nth [OF len] by blast
  have "cs' ! i = set_z_col (fin_pose C) (curr_z_of (fin_pose C))"
    using bn i ci by (simp add: estimate_pose_row_snd)
  then have batch: "\<exists>outs cs'. estimate_pose_batch cs ps = Inr (outs, cs')
             \<and> cs' ! i = set_z_col (fin_pose C) (curr_z_of (fin_pose C))
             \<and> cs' ! i \<noteq> fin_pose C"
    using b chg by auto
  show ?thesis using chg batch by (simp add: estimate_pose_snd)
qed

text \<open>A pose whose Z column has length two comes back with the column normalised.\<close>

theorem curr_pose_normalised_in_place_witness:
  "vnorm (z_col (rot_block (fin_pose pose_stretched))) \<noteq> Fin 1
   \<and> set_z_col (fin_pose pose_stretched) (curr_z_of (fin_pose pose_stretched))
       = fin_pose pose_identity
   \<and> snd (estimate_pose (fin_pose pose_stretched) None)
       = set_z_col (fin_pose pose_stretched) (curr_z_of (fin_pose pose_stretched))
   \<and> snd (estimate_pose (fin_pose pose_stretched) None) \<noteq> fin_pose pose_stretched
   \<and> (\<exists>outs cs'. estimate_pose_batch [fin_pose pose_stretched] [fin_pose pose_identity] = Inr (outs, cs')
         \<and> cs' ! 0 = set_z_col (fin_pose pose_stretched) (curr_z_of (fin_pose pose_stretched))
         \<and> cs' ! 0 \<noteq> fin_pose pose_stretched)"
proof -
  have h1: "vnorm (z_col (rot_block (fin_pose pose_stretched))) \<noteq> Fin 1"
    by (simp add: pose_stretched_def vnorm_def)
  have h2: "length [fin_pose pose_stretched] = length [fin_pose pose_identity]"
    and h3: "0 < length [fin_pose pose_stretched]"
    and h4: "[fin_pose pose_stretched] ! 0 = fin_pose pose_stretched" by simp_all
  have s: "set_z_col (fin_pose pose_stretched) (curr_z_of (fin_pose pose_stretched))
           = fin_pose pose_identity"
    by (simp add: pose_stretched_def pose_identity_def curr_z_of_def vnorm_def)
  show ?thesis
    using curr_pose_normalised_in_place [OF h1 h2 h3 h4, of None] h1 s by blast
qed

lemma estimate_pose_row_parallel:
  assumes cn: "vnorm (z_col (rot_block (fin_pose C))) \<noteq> Fin 0"
    and par: "vnorm (vcross (prev_z_of (fin_pose P)) (curr_z_of (fin_pose C))) = Fin 0"
  shows "fst (estimate_pose_row (fin_pose C) (fin_pose P))
         = make_pose (rot_block (fin_pose P)) (pos_col (fin_pose C))"
proof -
  obtain p1 p2 p3 where pz: "prev_z_of (fin_pose P) = (Fin p1, Fin p2, Fin p3)"
    using z_col_fin_pose [of P] unfolding prev_z_of_def by blast
  obtain z1 z2 z3 where z0: "z_col (rot_block (fin_pose C)) = (Fin z1, Fin z2, Fin z3)"
    using z_col_fin_pose [of C] by blast
  define m where "m = sqrt (z1 * z1 + z2 * z2 + z3 * z3)"
  have m0: "m \<noteq> 0" using cn unfolding z0 vnorm_fin m_def by simp
  have cz: "curr_z_of (fin_pose C) = (Fin (z1 / m), Fin (z2 / m), Fin (z3 / m))"
    unfolding curr_z_of_def z0 vnorm_fin using m0 by (simp add: m_def)
  obtain d where dot: "vdot (prev_z_of (fin_pose P)) (curr_z_of (fin_pose C)) = Fin d"
    unfolding pz cz by simp
  have "- 1 \<le> min (max d (- 1)) 1" and "min (max d (- 1)) 1 \<le> 1" by simp_all
  then have ang: "narccos (np_clip (Fin d) (Fin (- 1)) (Fin 1)) = Fin (arccos (min (max d (- 1)) 1))"
    by (simp add: np_clip_def)
  have "from_rotvec (vscale (Fin t) zeros3) = eye3" for t
    by (simp add: zeros3_def)
  then show ?thesis
    unfolding estimate_pose_row_fst par dot ang by simp
qed

text \<open>
  C1 at a half turn about X as current pose and no previous pose. The two Z directions
  are anti-parallel, their cross product is zero, and \<open>estimate_pose\<close> divides it by
  its zero norm: the rotation block of the returned pose is NaN. \<open>estimate_pose_batch\<close>
  guards the same quotient and returns the previous rotation.
\<close>

theorem antiparallel_single_nan:
  "vnorm (vcross (prev_z_of (fin_pose pose_identity)) (curr_z_of (fin_pose pose_flipped))) = Fin 0
   \<and> fst (estimate_pose (fin_pose pose_flipped) None)
       = ((NaN, NaN, NaN, Fin 2), (NaN, NaN, NaN, Fin 3), (NaN, NaN, NaN, Fin 4),
          (Fin 0, Fin 0, Fin 0, Fin 1))
   \<and> estimate_pose_batch [fin_pose pose_flipped] [fin_pose pose_identity]
       = Inr ([((Fin 1, Fin 0, Fin 0, Fin 2), (Fin 0, Fin 1, Fin 0, Fin 3),
                (Fin 0, Fin 0, Fin 1, Fin 4), (Fin 0, Fin 0, Fin 0, Fin 1))],
              [fin_pose pose_flipped])"
proof -
  have a: "vnorm (vcross (prev_z_of (fin_pose pose_identity)) (curr_z_of (fin_pose pose_flipped))) = Fin 0"
    by (simp add: prev_z_of_def curr_z_of_def pose_identity_def pose_flipped_def vnorm_def)
  have b: "fst (estimate_pose (fin_pose pose_flipped) None)
       = ((NaN, NaN, NaN, Fin 2), (NaN, NaN, NaN, Fin 3), (NaN, NaN, NaN, Fin 4),
          (Fin 0, Fin 0, Fin 0, Fin 1))"
    by (simp add: estimate_pose_def pose_flipped_def eye4_def eye3_def vnorm_def nan33_def Let_def)
  have c: "estimate_pose_batch [fin_pose pose_flipped] [fin_pose pose_identity]
       = Inr ([((Fin 1, Fin 0, Fin 0, Fin 2), (Fin 0, Fin 1, Fin 0, Fin 3),
                (Fin 0, Fin 0, Fin 1, Fin 4), (Fin 0, Fin 0, Fin 0, Fin 1))],
              [fin_pose pose_flipped])"
    by (simp add: estimate_pose_batch_def estimate_pose_row_def pose_flipped_def pose_identity_def
        eye3_def vnorm_def zeros3_def np_clip_def Let_def)
  show ?thesis using a b c by blast
qed

section \<open>Properties of the estimator state and the point clouds\<close>

lemma get_extrinsic_contact_reads:
  assumes "socket est2 = socket est1" and "object_pc est2 = object_pc est1"
    and "n_points est2 = n_points est1"
  shows "get_extrinsic_contact cd sh u est2 op oq sp sq ps th
         = get_extrinsic_contact cd sh u est1 op oq sp sq ps th"
  unfolding get_extrinsic_contact_def assms by (rule refl)

text \<open>
  C8, as the code has it. After \<open>reset_socket_pos\<close> the socket mesh, the ray-casting scene,
  the sample \<open>socket_pcl\<close>, the socket position and the no-rotation poses are determined by
  the pristine copy of the loaded mesh, the new position, \<open>n_points\<close> and \<open>num_envs\<close> alone:
  two estimators that agree on these (and on the object cloud) and differ in anything left
  from an earlier socket come out with the same mesh, the same scene, the same sample and
  the same answers of \<open>get_extrinsic_contact\<close>. The scene is built from the new mesh and the
  sample is what the sampler returns for the new mesh and \<open>n_points\<close>. The cloud \<open>socket_pc\<close>
  keeps its value.
\<close>

theorem reset_socket_pos_forgets_previous:
  assumes "reset_socket_trimesh est2 = reset_socket_trimesh est1"
    and "n_points est2 = n_points est1" and "num_envs est2 = num_envs est1"
    and "object_pc est2 = object_pc est1"
  shows "socket_trimesh (reset_socket_pos lib est2 p) = socket_trimesh (reset_socket_pos lib est1 p)
       \<and> socket (reset_socket_pos lib est2 p) = socket (reset_socket_pos lib est1 p)
       \<and> socket_pcl (reset_socket_pos lib est2 p) = socket_pcl (reset_socket_pos lib est1 p)
       \<and> socket_pos (reset_socket_pos lib est2 p) = socket_pos (reset_socket_pos lib est1 p)
       \<and> plug_pose_no_rot (reset_socket_pos lib est2 p)
           = plug_pose_no_rot (reset_socket_pos lib est1 p)
       \<and> get_extrinsic_contact cd sh u (reset_socket_pos lib est2 p) op oq sp sq ps th
           = get_extrinsic_contact cd sh u (reset_socket_pos lib est1 p) op oq sp sq ps th
       \<and> socket (reset_socket_pos lib est1 p) = Some (socket_trimesh (reset_socket_pos lib est1 p))
       \<and> socket_pcl (reset_socket_pos lib est1 p)
           = sample_surface_even lib (socket_trimesh (reset_socket_pos lib est1 p)) (n_points est1)
       \<and> socket_pc (reset_socket_pos lib est1 p) = socket_pc est1"
proof -
  have fields: "socket_trimesh (reset_socket_pos lib est2 p) = socket_trimesh (reset_socket_pos lib est1 p)"
    "socket (reset_socket_pos lib est2 p) = socket (reset_socket_pos lib est1 p)"
    "socket_pcl (reset_socket_pos lib est2 p) = socket_pcl (reset_socket_pos lib est1 p)"
    "socket_pos (reset_socket_pos lib est2 p) = socket_pos (reset_socket_pos lib est1 p)"
    "plug_pose_no_rot (reset_socket_pos lib est2 p) = plug_pose_no_rot (reset_socket_pos lib est1 p)"
    "object_pc (reset_socket_pos lib est2 p) = object_pc (reset_socket_pos lib est1 p)"
    "n_points (reset_socket_pos lib est2 p) = n_points (reset_socket_pos lib est1 p)"
    using assms by (simp_all add: reset_socket_pos_def Let_def)
  have q: "get_extrinsic_contact cd sh u (reset_socket_pos lib est2 p) op oq sp sq ps th
           = get_extrinsic_contact cd sh u (reset_socket_pos lib est1 p) op oq sp sq ps th"
    using fields(2) fields(6) fields(7) by (rule get_extrinsic_contact_reads)
  have own: "socket (reset_socket_pos lib est1 p) = Some (socket_trimesh (reset_socket_pos lib est1 p))"
    "socket_pcl (reset_socket_pos lib est1 p)
       = sample_surface_even lib (socket_trimesh (reset_socket_pos lib est1 p)) (n_points est1)"
    "socket_pc (reset_socket_pos lib est1 p) = socket_pc est1"
    by (simp_all add: reset_socket_pos_def Let_def)
  show ?thesis
    by (intro conjI fields(1) fields(2) fields(3) fields(4) fields(5) q own)
qed

text \<open>The example estimator and the one with another socket state left from before.\<close>

theorem reset_socket_pos_forgets_previous_witness:
  "reset_socket_trimesh est_stale = reset_socket_trimesh est_example
   \<and> n_points est_stale = n_points est_example
   \<and> num_envs est_stale = num_envs est_example
   \<and> object_pc est_stale = object_pc est_example
   \<and> socket est_stale \<noteq> socket est_example
   \<and> socket_trimesh (reset_socket_pos lib_example est_stale (1, 1, 1))
       = socket_trimesh (reset_socket_pos lib_example est_example (1, 1, 1))
   \<and> socket (reset_socket_pos lib_example est_stale (1, 1, 1))
       = socket (reset_socket_pos lib_example est_example (1, 1, 1))
   \<and> socket_pcl (reset_socket_pos lib_example est_stale (1, 1, 1))
       = socket_pcl (reset_socket_pos lib_example est_example (1, 1, 1))
   \<and> get_extrinsic_contact (\<lambda>m p. 0) rev (1 / 20) (reset_socket_pos lib_example est_stale (1, 1, 1))
        [(0, 0, 0)] [(0, 0, 0, 1)] [(1, 1, 1)] [(0, 0, 0, 1)] [1] (1 / 500)
       = get_extrinsic_contact (\<lambda>m p. 0) rev (1 / 20)
           (reset_socket_pos lib_example est_example (1, 1, 1))
           [(0, 0, 0)] [(0, 0, 0, 1)] [(1, 1, 1)] [(0, 0, 0, 1)] [1] (1 / 500)"
proof -
  have h1: "reset_socket_trimesh est_stale = reset_socket_trimesh est_example"
    and h2: "n_points est_stale = n_points est_example"
    and h3: "num_envs est_stale = num_envs est_example"
    and h4: "object_pc est_stale = object_pc est_example"
    by (simp_all add: est_stale_def)
  have d: "socket est_stale \<noteq> socket est_example"
    by (simp add: est_stale_def est_example_def init_def Let_def)
  show ?thesis
    using reset_socket_pos_forgets_previous [OF h1 h2 h3 h4, of lib_example "(1, 1, 1)"
        "\<lambda>m p. 0" rev "1 / 20" "[(0, 0, 0)]" "[(0, 0, 0, 1)]" "[(1, 1, 1)]" "[(0, 0, 0, 1)]" "[1]"
        "1 / 500"]
      h1 h2 h3 h4 d
    by blast
qed

text \<open>
  C8 as the specification states it has every derived socket state rebuilt and nothing of
  the previous mesh reach a later query. The example estimator and \<open>est_unit\<close> hold the same
  pristine mesh and differ in the scale of the construction. After the same reposition to
  \<open>(1, 1, 1)\<close> both have the same new mesh and the same fresh sample \<open>socket_pcl\<close>, but each
  keeps its \<open>socket_pc\<close> of the construction, which is not the sample of the new mesh, and
  \<open>get_pcl\<close> answers with a point of it: a different point for the two.
\<close>

theorem reset_socket_pos_stale_counterexample:
  "reset_socket_trimesh est_unit = reset_socket_trimesh est_example
   \<and> socket_trimesh (reset_socket_pos lib_example est_unit (1, 1, 1))
       = socket_trimesh (reset_socket_pos lib_example est_example (1, 1, 1))
   \<and> socket_pcl (reset_socket_pos lib_example est_example (1, 1, 1)) = [(2, 1, 1)]
   \<and> socket_pc (reset_socket_pos lib_example est_example (1, 1, 1)) = [(2, 0, 0)]
   \<and> socket_pc (reset_socket_pos lib_example est_example (1, 1, 1))
       \<noteq> sample_surface_even lib_example
            (socket_trimesh (reset_socket_pos lib_example est_example (1, 1, 1)))
            (n_points (reset_socket_pos lib_example est_example (1, 1, 1)))
   \<and> get_pcl (\<lambda>n k. [2]) (reset_socket_pos lib_example est_example (1, 1, 1))
        [(0, 0, 0)] [(0, 0, 0, 1)] [(1, 1, 1)] [(0, 0, 0, 1)] = Inr [[3, 1, 1]]
   \<and> get_pcl (\<lambda>n k. [2]) (reset_socket_pos lib_example est_unit (1, 1, 1))
        [(0, 0, 0)] [(0, 0, 0, 1)] [(1, 1, 1)] [(0, 0, 0, 1)] = Inr [[2, 1, 1]]"
  by (simp add: reset_socket_pos_def est_example_def est_unit_def init_def lib_example_def
      first_vertices_def triangle_def scale_vertices_def transform_vertices_def get_pcl_def
      xyzquat_to_tf_def apply_transform_def flatten_points_def Let_def)

lemma xyzquat_to_tf_ok:
  assumes "length pos = length quats" and "\<forall>q \<in> set quats. quat_norm q \<noteq> 0"
  shows "xyzquat_to_tf pos quats = Inr (map (\<lambda>(p, q). quat_pose p q) (zip pos quats))"
  using assms by (simp add: xyzquat_to_tf_def)

lemma size1_rows:
  assumes "t \<noteq> []" and "\<forall>row \<in> set t. length row = n"
  shows "size1 t = n"
  using assms by (cases t) (simp_all add: size1_def)

lemma goal_points_length: "length (goal_points est pose k) = length (object_pc est)"
  by (simp add: goal_points_def)

lemma randperm_take:
  assumes "mset xs = mset [0..<m]" and "k \<le> m"
  shows "distinct (take k xs)" and "length (take k xs) = k"
    and "\<forall>i \<in> set (take k xs). i < m"
proof -
  have d: "distinct xs"
    using assms(1) by (metis distinct_upt mset_eq_imp_distinct_iff)
  then show "distinct (take k xs)" by (rule distinct_take)
  have "length xs = m" using assms(1) by (metis length_upt diff_zero mset_eq_length)
  then show "length (take k xs) = k" using assms(2) by simp
  have "set xs = {0..<m}" using assms(1) by (metis mset_eq_setD set_upt)
  then show "\<forall>i \<in> set (take k xs). i < m"
    using set_take_subset [of k xs] by auto
qed

lemma gather_subset:
  assumes "\<forall>i \<in> set idx. i < length xs"
  shows "set (map (\<lambda>i. xs ! i) idx) \<subseteq> set xs"
  using assms by auto

text \<open>
  C9. Take \<open>N \<ge> 1\<close> instances, an existing cloud of \<open>P\<close> points per instance, as many socket
  positions, quaternions of norm not zero and scales, an object cloud of \<open>P\<close> points, and
  \<open>randperm(2P)\<close> a permutation of \<open>0, \<dots>, 2P - 1\<close>. Then \<open>merge_goal_pcl\<close> returns, and for
  every instance the result is the flattening of exactly \<open>P\<close> points, those at \<open>P\<close>
  distinct positions of the \<open>2P\<close>-point concatenation of the existing cloud and the scaled,
  transformed goal points.
\<close>

theorem merge_goal_pcl_samples_concatenation:
  assumes n1: "length pcl = length plug_scale"
    and n2: "length socket_pos1 = length plug_scale"
    and n3: "length socket_quat = length plug_scale"
    and ne: "plug_scale \<noteq> []"
    and q: "\<forall>q \<in> set socket_quat. quat_norm q \<noteq> 0"
    and rows: "\<forall>row \<in> set pcl. length row = P"
    and obj: "length (object_pc est) = P"
    and perm: "mset (randperm (2 * P)) = mset [0..<2 * P]"
  shows "\<exists>poses out.
           xyzquat_to_tf socket_pos1 socket_quat = Inr poses
         \<and> merge_goal_pcl randperm est pcl socket_pos1 socket_quat plug_scale = Inr out
         \<and> length out = length pcl
         \<and> distinct (take P (randperm (2 * P)))
         \<and> length (take P (randperm (2 * P))) = P
         \<and> (\<forall>i \<in> set (take P (randperm (2 * P))). i < 2 * P)
         \<and> (\<forall>n < length pcl.
               length (pcl ! n @ goal_points est (poses ! n) (plug_scale ! n)) = 2 * P
             \<and> out ! n = flatten_points
                   (map (\<lambda>i. (pcl ! n @ goal_points est (poses ! n) (plug_scale ! n)) ! i)
                      (take P (randperm (2 * P))))
             \<and> length (map (\<lambda>i. (pcl ! n @ goal_points est (poses ! n) (plug_scale ! n)) ! i)
                      (take P (randperm (2 * P)))) = P
             \<and> set (map (\<lambda>i. (pcl ! n @ goal_points est (poses ! n) (plug_scale ! n)) ! i)
                      (take P (randperm (2 * P))))
                 \<subseteq> set (pcl ! n @ goal_points est (poses ! n) (plug_scale ! n)))"
proof -
  let ?N = "length plug_scale"
  let ?poses = "map (\<lambda>(p, q). quat_pose p q) (zip socket_pos1 socket_quat)"
  let ?goal = "map (\<lambda>i. goal_points est (?poses ! i) (plug_scale ! i)) [0..<?N]"
  let ?merged = "map (\<lambda>(a, b). a @ b) (zip pcl ?goal)"
  let ?idx = "take P (randperm (2 * P))"
  let ?out = "map (\<lambda>row. flatten_points (map (\<lambda>i. row ! i) ?idx)) ?merged"
  have tf: "xyzquat_to_tf socket_pos1 socket_quat = Inr ?poses"
    using n2 n3 q by (intro xyzquat_to_tf_ok) simp_all
  have lp: "length ?poses = ?N" using n2 n3 by simp
  have pne: "pcl \<noteq> []" using n1 ne by auto
  have s1: "size1 pcl = P" using pne rows by (rule size1_rows)
  have mne: "?merged \<noteq> []" using pne ne n1 by (cases pcl; cases plug_scale) simp_all
  have mrows: "\<forall>row \<in> set ?merged. length row = 2 * P"
  proof
    fix row assume "row \<in> set ?merged"
    then obtain a b where ab: "(a, b) \<in> set (zip pcl ?goal)" and row: "row = a @ b" by auto
    have "a \<in> set pcl" using ab by (rule set_zip_leftD)
    moreover have "b \<in> set ?goal" using ab by (rule set_zip_rightD)
    ultimately show "length row = 2 * P"
      using rows obj row by (auto simp: goal_points_length)
  qed
  have s2: "size1 ?merged = 2 * P" using mne mrows by (rule size1_rows)
  have res: "merge_goal_pcl randperm est pcl socket_pos1 socket_quat plug_scale = Inr ?out"
    unfolding merge_goal_pcl_def tf using lp ne n1 s1 s2 by (simp add: Let_def)
  have idx: "distinct ?idx" "length ?idx = P" "\<forall>i \<in> set ?idx. i < 2 * P"
    using randperm_take [of "randperm (2 * P)" "2 * P" P] perm by simp_all
  have nth: "?merged ! n = pcl ! n @ goal_points est (?poses ! n) (plug_scale ! n)"
    if "n < length pcl" for n
    using that n1 by simp
  have per: "length (pcl ! n @ goal_points est (?poses ! n) (plug_scale ! n)) = 2 * P
             \<and> ?out ! n = flatten_points
                   (map (\<lambda>i. (pcl ! n @ goal_points est (?poses ! n) (plug_scale ! n)) ! i) ?idx)
             \<and> length (map (\<lambda>i. (pcl ! n @ goal_points est (?poses ! n) (plug_scale ! n)) ! i) ?idx) = P
             \<and> set (map (\<lambda>i. (pcl ! n @ goal_points est (?poses ! n) (plug_scale ! n)) ! i) ?idx)
                 \<subseteq> set (pcl ! n @ goal_points est (?poses ! n) (plug_scale ! n))"
    if n: "n < length pcl" for n
  proof -
    let ?conc = "pcl ! n @ goal_points est (?poses ! n) (plug_scale ! n)"
    have "pcl ! n \<in> set pcl" using n by simp
    then have lc: "length ?conc = 2 * P" using rows obj by (simp add: goal_points_length)
    have o: "?out ! n = flatten_points (map (\<lambda>i. ?conc ! i) ?idx)"
      using n n1 nth [OF n] by simp
    have sub: "set (map (\<lambda>i. ?conc ! i) ?idx) \<subseteq> set ?conc"
      using idx(3) unfolding lc [symmetric] by (rule gather_subset)
    show ?thesis using lc o sub idx(2) by simp
  qed
  have lo: "length ?out = length pcl" using n1 by simp
  show ?thesis
    by (rule exI [of _ ?poses], rule exI [of _ ?out])
       (intro conjI tf res lo idx allI impI per; assumption)
qed

text \<open>One instance, one existing point, the reversing permutation: the goal point is chosen.\<close>

theorem merge_goal_pcl_samples_concatenation_witness:
  "quat_norm (0, 0, 0, 1) \<noteq> 0
   \<and> length (object_pc est_example) = 1
   \<and> mset (rev [0..<2 * 1]) = mset [0..<2 * 1]
   \<and> (\<exists>out. merge_goal_pcl (\<lambda>n. rev [0..<n]) est_example [[(5, 5, 5)]] [(1, 1, 1)] [(0, 0, 0, 1)] [2]
                = Inr out
            \<and> length out = 1 \<and> out ! 0 = [3, 1, 1])"
proof -
  have h1: "length [[(5, 5, 5)]] = length [2::real]"
    and h2: "length [(1, 1, 1)] = length [2::real]"
    and h3: "length [(0, 0, 0, 1)] = length [2::real]"
    and h4: "[2::real] \<noteq> []" by simp_all
  have h5: "\<forall>q \<in> set [(0, 0, 0, 1)]. quat_norm q \<noteq> 0" by simp
  have h6: "\<forall>row \<in> set [[(5, 5, 5)]]. length row = 1" by simp
  have h7: "length (object_pc est_example) = 1"
    by (simp add: est_example_def init_def lib_example_def first_vertices_def triangle_def
        scale_vertices_def Let_def)
  have h8: "mset (rev [0..<2 * 1]) = mset [0..<2 * 1]" by simp
  have tf: "xyzquat_to_tf [(1, 1, 1)] [(0, 0, 0, 1)]
            = Inr [((1, 0, 0, 1), (0, 1, 0, 1), (0, 0, 1, 1), (0, 0, 0, 1))]"
    by (simp add: xyzquat_to_tf_def)
  have idx: "take 1 (rev [0..<2 * 1]) = [1]" by (simp add: upt_rec)
  have gp: "goal_points est_example ((1, 0, 0, 1), (0, 1, 0, 1), (0, 0, 1, 1), (0, 0, 0, 1)) 2
            = [(3, 1, 1)]"
    by (simp add: goal_points_def est_example_def init_def lib_example_def first_vertices_def
        triangle_def scale_vertices_def Let_def)
  obtain poses out where p: "xyzquat_to_tf [(1, 1, 1)] [(0, 0, 0, 1)] = Inr poses"
    and r: "merge_goal_pcl (\<lambda>n. rev [0..<n]) est_example [[(5, 5, 5)]] [(1, 1, 1)] [(0, 0, 0, 1)] [2]
              = Inr out"
    and l: "length out = length [[(5::real, 5::real, 5::real)]]"
    and o: "\<forall>n < length [[(5::real, 5::real, 5::real)]].
              length ([[(5, 5, 5)]] ! n @ goal_points est_example (poses ! n) ([2] ! n)) = 2 * 1
            \<and> out ! n = flatten_points
                  (map (\<lambda>i. ([[(5, 5, 5)]] ! n @ goal_points est_example (poses ! n) ([2] ! n)) ! i)
                     (take 1 (rev [0..<2 * 1])))
            \<and> length (map (\<lambda>i. ([[(5, 5, 5)]] ! n @ goal_points est_example (poses ! n) ([2] ! n)) ! i)
                     (take 1 (rev [0..<2 * 1]))) = 1
            \<and> set (map (\<lambda>i. ([[(5, 5, 5)]] ! n @ goal_points est_example (poses ! n) ([2] ! n)) ! i)
                     (take 1 (rev [0..<2 * 1])))
                \<subseteq> set ([[(5, 5, 5)]] ! n @ goal_points est_example (poses ! n) ([2] ! n))"
    using merge_goal_pcl_samples_concatenation
      [of "[[(5, 5, 5)]]" "[2]" "[(1, 1, 1)]" "[(0, 0, 0, 1)]" 1 est_example "\<lambda>n. rev [0..<n]",
       OF h1 h2 h3 h4 h5 h6 h7 h8]
    by blast
  have poses: "poses = [((1, 0, 0, 1), (0, 1, 0, 1), (0, 0, 1, 1), (0, 0, 0, 1))]"
    using p tf by simp
  have "out ! 0 = flatten_points
                  (map (\<lambda>i. ([[(5, 5, 5)]] ! 0 @ goal_points est_example (poses ! 0) ([2] ! 0)) ! i)
                     (take 1 (rev [0..<2 * 1])))"
    using o by simp
  then have o0: "out ! 0 = [3, 1, 1]"
    unfolding idx poses by (simp add: gp flatten_points_def)
  have "\<exists>out. merge_goal_pcl (\<lambda>n. rev [0..<n]) est_example [[(5, 5, 5)]] [(1, 1, 1)] [(0, 0, 0, 1)] [2]
                = Inr out \<and> length out = 1 \<and> out ! 0 = [3, 1, 1]"
    using r l o0 by auto
  then show ?thesis using h7 h8 by simp
qed

lemma assign_zero_set: "set (assign_zero idx d) \<subseteq> insert (Fin 0) (set d)"
  unfolding assign_zero_def
proof (induction idx arbitrary: d)
  case Nil
  then show ?case by auto
next
  case (Cons i idx)
  have "set (fold (\<lambda>i acc. acc[i := Fin 0]) idx (d[i := Fin 0])) \<subseteq> insert (Fin 0) (set (d[i := Fin 0]))"
    by (rule Cons.IH)
  also have "\<dots> \<subseteq> insert (Fin 0) (set d)"
    using set_update_subset_insert [of d i "Fin 0"] by auto
  finally show ?case by simp
qed

lemma dropout_returns:
  assumes sh: "mset (shuffle (where_one d)) = mset (where_one d)"
  shows "\<exists>d'. dropout shuffle u d = Inr d' \<and> length d' = length d
              \<and> set d' \<subseteq> insert (Fin 0) (set d)"
proof (cases "where_one d = []")
  case True
  then show ?thesis by (auto simp: dropout_def)
next
  case False
  let ?sh = "shuffle (where_one d)"
  have set_sh: "set ?sh = set (where_one d)" using sh by (rule mset_eq_setD)
  have "\<forall>x \<in> set (map (\<lambda>i. d ! i) ?sh). x = Fin 1"
    using set_sh by (auto simp: where_one_set)
  then have s: "nsum (map (\<lambda>i. d ! i) ?sh) = Fin (real (length ?sh))"
    using nsum_ones [of "map (\<lambda>i. d ! i) ?sh"] by simp
  obtain k where k: "py_int (nmul (nsum (map (\<lambda>i. d ! i) ?sh)) (Fin u)) = Inr k"
    unfolding s by (simp add: py_int_def)
  have "dropout shuffle u d = Inr (assign_zero (slice_to k ?sh) d)"
    using False k by (simp add: dropout_def Let_def)
  then show ?thesis
    using assign_zero_set [of "slice_to k ?sh" d] by (simp add: assign_zero_length)
qed

lemma view_rows_ok:
  assumes "0 < n" and "length d = m * n"
  shows "\<exists>rows. view_rows n d = Inr rows \<and> length rows = m
           \<and> (\<forall>row \<in> set rows. length row = n \<and> set row \<subseteq> set d)"
proof -
  let ?rows = "map (\<lambda>k. take n (drop (k * n) d)) [0..<length d div n]"
  have v: "view_rows n d = Inr ?rows" using assms by (simp add: view_rows_def)
  have l: "length ?rows = m" using assms by simp
  have "length (take n (drop (k * n) d)) = n \<and> set (take n (drop (k * n) d)) \<subseteq> set d"
    if "k < m" for k
  proof -
    have "k * n + n \<le> m * n" using that by (metis Suc_leI mult_Suc mult_le_mono1 add.commute)
    then have "length (take n (drop (k * n) d)) = n" using assms(2) by simp
    moreover have "set (take n (drop (k * n) d)) \<subseteq> set d"
      by (meson set_drop_subset set_take_subset subset_trans)
    ultimately show ?thesis by simp
  qed
  then have "\<forall>row \<in> set ?rows. length row = n \<and> set row \<subseteq> set d"
    using assms by auto
  then show ?thesis using v l by blast
qed

lemma scores_fin_range:
  assumes "round32 t = F32 t32" and "t32 \<noteq> 0"
  shows "\<forall>x \<in> set (contact_scores t (map Fin di)). \<exists>s. x = Fin s \<and> 0 \<le> s \<and> s \<le> 1"
  using score_elem_range [OF assms] by (auto simp: contact_scores_def)

text \<open>
  The object cloud has \<open>n_points\<close> points exactly when the sampler returned as many as it was
  asked for at construction; a reposition changes neither.
\<close>

lemma object_cloud_size:
  "length (object_pc (init lib mo ms os ss sp ne np cc)) = n_points (init lib mo ms os ss sp ne np cc)
   \<longleftrightarrow> length (sample_surface_even lib (apply_scale lib os mo) np) = np"
  by (simp add: init_def Let_def)

lemma object_cloud_kept:
  "object_pc (reset_socket_pos lib est p) = object_pc est
   \<and> n_points (reset_socket_pos lib est p) = n_points est"
  by (simp add: reset_socket_pos_def Let_def)

text \<open>
  C4, as the code has it. Take a threshold whose float32 value is finite and not zero, as
  many object quaternions as positions and socket quaternions as positions, all of norm not
  zero, an estimator whose ray-casting scene exists and whose object cloud has \<open>n_points > 0\<close>
  points, and a shuffle that permutes. Then \<open>get_extrinsic_contact\<close> returns one row per
  instance, every row has \<open>n_points\<close> entries and every entry is a finite number in \<open>[0, 1]\<close>.
\<close>

theorem contact_scores_in_unit_interval:
  assumes t: "round32 threshold = F32 t32" and t0: "t32 \<noteq> 0"
    and l1: "length obj_quat = length obj_pos"
    and l2: "length socket_quat = length socket_pos1"
    and q1: "\<forall>q \<in> set obj_quat. quat_norm q \<noteq> 0"
    and q2: "\<forall>q \<in> set socket_quat. quat_norm q \<noteq> 0"
    and built: "socket est = Some scene"
    and P: "length (object_pc est) = n_points est" and P0: "0 < n_points est"
    and sh: "\<forall>xs. mset (shuffle xs) = mset xs"
  shows "\<exists>rows. get_extrinsic_contact compute_distance shuffle u est obj_pos obj_quat
                   socket_pos1 socket_quat plug_scale threshold = Inr rows
           \<and> length rows = length obj_pos
           \<and> (\<forall>row \<in> set rows. length row = n_points est
                 \<and> (\<forall>x \<in> set row. \<exists>s. x = Fin s \<and> 0 \<le> s \<and> s \<le> 1))"
proof -
  let ?poses = "map (\<lambda>(p, q). quat_pose p q) (zip obj_pos obj_quat)"
  let ?qp = "apply_transform ?poses (object_pc est)"
  let ?di = "map (compute_distance scene) (concat ?qp)"
  let ?d = "contact_scores threshold (map Fin ?di)"
  have tf1: "xyzquat_to_tf obj_pos obj_quat = Inr ?poses"
    using l1 q1 by (intro xyzquat_to_tf_ok) simp_all
  obtain sp where tf2: "xyzquat_to_tf socket_pos1 socket_quat = Inr sp"
    using xyzquat_to_tf_ok [of socket_pos1 socket_quat] l2 q2 by simp
  have lq: "length (concat ?qp) = length obj_pos * n_points est"
    using l1 P by (simp add: apply_transform_def length_concat comp_def sum_list_triv)
  have ld: "length ?d = length obj_pos * n_points est"
    using lq by (simp add: contact_scores_def)
  obtain d' where dr: "dropout shuffle u ?d = Inr d'" and ld': "length d' = length ?d"
    and sd': "set d' \<subseteq> insert (Fin 0) (set ?d)"
    using dropout_returns [of shuffle ?d u] sh by blast
  obtain rows where vr: "view_rows (n_points est) d' = Inr rows"
    and lr: "length rows = length obj_pos"
    and rr: "\<forall>row \<in> set rows. length row = n_points est \<and> set row \<subseteq> set d'"
    using view_rows_ok [OF P0, of d' "length obj_pos"] ld ld' by auto
  have rng: "\<forall>x \<in> set d'. \<exists>s. x = Fin s \<and> 0 \<le> s \<and> s \<le> 1"
  proof
    fix x assume "x \<in> set d'"
    then have "x = Fin 0 \<or> x \<in> set ?d" using sd' by auto
    then show "\<exists>s. x = Fin s \<and> 0 \<le> s \<and> s \<le> 1"
      using scores_fin_range [OF t t0, of ?di] by auto
  qed
  have res: "get_extrinsic_contact compute_distance shuffle u est obj_pos obj_quat
               socket_pos1 socket_quat plug_scale threshold = Inr rows"
    unfolding get_extrinsic_contact_def tf1 tf2 using built dr vr by (simp add: Let_def)
  have "\<forall>row \<in> set rows. length row = n_points est
          \<and> (\<forall>x \<in> set row. \<exists>s. x = Fin s \<and> 0 \<le> s \<and> s \<le> 1)"
    using rr rng by blast
  then show ?thesis using res lr by blast
qed

lemma score_elem_zero_threshold: "round32 t = F32 0 \<Longrightarrow> score_elem t (Fin 1) = NaN"
  by (simp add: score_elem_def score32_def Let_def clip32_def maximum32_def minimum32_def)

lemma score_elem_on_surface: "score_elem (1 / 500) (Fin 0) = Fin 1"
  using score_elem_near [OF round32_default_threshold, of 0] by simp

text \<open>
  C4 as the specification states it covers every call. With the threshold zero, or a
  threshold such as \<open>10\<^sup>-\<^sup>5\<^sup>0\<close> that is cast to the float32 zero, the clipped distance is zero,
  the quotient is \<open>0/0\<close>, and the returned entry is NaN, which is not in \<open>[0, 1]\<close>. For the
  estimator that asked for five sample points and got three, the three scores of one
  instance cannot be viewed as rows of five: the call raises. For the estimator built
  without \<^verbatim>\<open>calc_contact\<close> there is no ray-casting scene to query: the call raises.
\<close>

theorem zero_threshold_counterexample:
  "get_extrinsic_contact (\<lambda>m p. 1) rev (1 / 20) est_example
     [(0, 0, 0)] [(0, 0, 0, 1)] [(1, 1, 1)] [(0, 0, 0, 1)] [1] 0 = Inr [[NaN]]
   \<and> get_extrinsic_contact (\<lambda>m p. 1) rev (1 / 20) est_example
     [(0, 0, 0)] [(0, 0, 0, 1)] [(1, 1, 1)] [(0, 0, 0, 1)] [1] (1 / 10 ^ 50) = Inr [[NaN]]
   \<and> length (object_pc est_short) = 3 \<and> n_points est_short = 5
   \<and> get_extrinsic_contact (\<lambda>m p. 0) rev (1 / 20) est_short
     [(0, 0, 0)] [(0, 0, 0, 1)] [(1, 1, 1)] [(0, 0, 0, 1)] [1] (1 / 500) = Inl RuntimeError
   \<and> get_extrinsic_contact (\<lambda>m p. 0) rev (1 / 20) est_no_contact
     [(0, 0, 0)] [(0, 0, 0, 1)] [(1, 1, 1)] [(0, 0, 0, 1)] [1] (1 / 500) = Inl AttributeError"
proof -
  have z: "score_elem 0 (Fin 1) = NaN" by (rule score_elem_zero_threshold) simp
  have y: "score_elem (1 / 10 ^ 50) (Fin 1) = NaN"
    by (rule score_elem_zero_threshold) (rule round32_tiny)
  have a: "get_extrinsic_contact (\<lambda>m p. 1) rev (1 / 20) est_example
     [(0, 0, 0)] [(0, 0, 0, 1)] [(1, 1, 1)] [(0, 0, 0, 1)] [1] 0 = Inr [[NaN]]"
    by (simp add: get_extrinsic_contact_def xyzquat_to_tf_def apply_transform_def est_example_def
      init_def lib_example_def first_vertices_def triangle_def scale_vertices_def
      contact_scores_def z dropout_def where_one_def view_rows_def Let_def)
  have b: "get_extrinsic_contact (\<lambda>m p. 1) rev (1 / 20) est_example
     [(0, 0, 0)] [(0, 0, 0, 1)] [(1, 1, 1)] [(0, 0, 0, 1)] [1] (1 / 10 ^ 50) = Inr [[NaN]]"
    using y
    by (simp add: get_extrinsic_contact_def xyzquat_to_tf_def apply_transform_def est_example_def
      init_def lib_example_def first_vertices_def triangle_def scale_vertices_def
      contact_scores_def dropout_def where_one_def view_rows_def Let_def)
  have c: "length (object_pc est_short) = 3" and d: "n_points est_short = 5"
    by (simp_all add: est_short_def init_def lib_example_def first_vertices_def triangle_def
      scale_vertices_def Let_def)
  have w: "where_one [Fin 1, Fin 1, Fin 1] = [0, 1, 2]" by code_simp
  have e: "get_extrinsic_contact (\<lambda>m p. 0) rev (1 / 20) est_short
     [(0, 0, 0)] [(0, 0, 0, 1)] [(1, 1, 1)] [(0, 0, 0, 1)] [1] (1 / 500) = Inl RuntimeError"
    by (simp add: get_extrinsic_contact_def xyzquat_to_tf_def apply_transform_def est_short_def
      init_def lib_example_def first_vertices_def triangle_def scale_vertices_def
      contact_scores_def score_elem_on_surface dropout_def w py_int_def slice_to_def
      assign_zero_def view_rows_def Let_def)
  have f: "get_extrinsic_contact (\<lambda>m p. 0) rev (1 / 20) est_no_contact
     [(0, 0, 0)] [(0, 0, 0, 1)] [(1, 1, 1)] [(0, 0, 0, 1)] [1] (1 / 500) = Inl AttributeError"
    by (simp add: get_extrinsic_contact_def xyzquat_to_tf_def est_no_contact_def init_def Let_def)
  show ?thesis by (intro conjI a b c d e f)
qed

text \<open>The hypotheses of C4 hold for the example estimator and the threshold 0.002.\<close>

theorem contact_scores_in_unit_interval_witness:
  "round32 (1 / 500) = F32 (8589935 / 2 ^ 32)
   \<and> (8589935::real) / 2 ^ 32 \<noteq> 0
   \<and> socket est_example = Some (scale_vertices 2 triangle)
   \<and> length (object_pc est_example) = n_points est_example
   \<and> 0 < n_points est_example
   \<and> (\<exists>rows. get_extrinsic_contact (\<lambda>m p. 0) rev (1 / 20) est_example
                 [(0, 0, 0)] [(0, 0, 0, 1)] [(1, 1, 1)] [(0, 0, 0, 1)] [1] (1 / 500) = Inr rows
             \<and> length rows = 1 \<and> rows = [[Fin 1]])"
proof -
  have h1: "(8589935::real) / 2 ^ 32 \<noteq> 0" by simp
  have h2: "length [(0::real, 0::real, 0::real, 1::real)] = length [(0::real, 0::real, 0::real)]"
    and h3: "length [(0::real, 0::real, 0::real, 1::real)] = length [(1::real, 1::real, 1::real)]"
    by simp_all
  have h4: "\<forall>q \<in> set [(0, 0, 0, 1)]. quat_norm q \<noteq> 0" by simp
  have h5: "socket est_example = Some (scale_vertices 2 triangle)"
    by (simp add: est_example_def init_def lib_example_def Let_def)
  have h6: "length (object_pc est_example) = n_points est_example"
    and h7: "0 < n_points est_example"
    by (simp_all add: est_example_def init_def lib_example_def first_vertices_def triangle_def
      scale_vertices_def Let_def)
  have h8: "\<forall>xs :: nat list. mset (rev xs) = mset xs" by simp
  have w: "where_one [Fin 1] = [0]" by code_simp
  have ev: "get_extrinsic_contact (\<lambda>m p. 0) rev (1 / 20) est_example
              [(0, 0, 0)] [(0, 0, 0, 1)] [(1, 1, 1)] [(0, 0, 0, 1)] [1] (1 / 500) = Inr [[Fin 1]]"
    by (simp add: get_extrinsic_contact_def xyzquat_to_tf_def apply_transform_def est_example_def
      init_def lib_example_def first_vertices_def triangle_def scale_vertices_def
      contact_scores_def score_elem_on_surface dropout_def w py_int_def slice_to_def
      assign_zero_def view_rows_def Let_def)
  obtain rows where r: "get_extrinsic_contact (\<lambda>m p. 0) rev (1 / 20) est_example
                 [(0, 0, 0)] [(0, 0, 0, 1)] [(1, 1, 1)] [(0, 0, 0, 1)] [1] (1 / 500) = Inr rows"
    and l: "length rows = length [(0::real, 0::real, 0::real)]"
    using contact_scores_in_unit_interval
      [of "1 / 500" "8589935 / 2 ^ 32" "[(0, 0, 0, 1)]" "[(0, 0, 0)]" "[(0, 0, 0, 1)]"
          "[(1, 1, 1)]" est_example "scale_vertices 2 triangle" rev "\<lambda>m p. 0" "1 / 20" "[1]",
       OF round32_default_threshold h1 h2 h3 h4 h4 h5 h6 h7 h8]
    by blast
  have "rows = [[Fin 1]]" using r ev by simp
  then have "\<exists>rows. get_extrinsic_contact (\<lambda>m p. 0) rev (1 / 20) est_example
                 [(0, 0, 0)] [(0, 0, 0, 1)] [(1, 1, 1)] [(0, 0, 0, 1)] [1] (1 / 500) = Inr rows
             \<and> length rows = 1 \<and> rows = [[Fin 1]]"
    using r l by simp
  then show ?thesis using round32_default_threshold h1 h5 h6 h7 by blast
qed

end
